theory Spec2Isabelle
  imports Main
begin

section \<open>Data model of the API client (inngest-client.ts)\<close>

text \<open>
  Parsed JSON values, as \<open>response.json()\<close> yields them. Objects are association
  lists in insertion order, read with \<open>map_of\<close>. Numbers are integers: the client never
  computes with the numbers of a payload.
\<close>

datatype Json =
    JNull
  | JBool bool
  | JNum int
  | JStr string
  | JArr "Json list"
  | JObj "(string \<times> Json) list"

text \<open>
  A value that was thrown: an \<open>Error\<close> instance with its message, or any other value
  with its \<open>String(value)\<close> rendering. The handlers and the candidate loops distinguish
  the two with \<open>error instanceof Error\<close>.
\<close>

datatype thrown = Err string | Other string

record InngestConfig =
  signingKey :: string
  eventKey :: "string option"
  baseUrl :: string
  env :: "string option"

record ApiResponse =
  resp_url :: string
  resp_status :: nat
  resp_data :: Json
  resp_timestamp :: string

record ApiError =
  message :: string
  err_timestamp :: string

text \<open>The \<open>RequestInit\<close> fields the client uses, and the call \<open>fetch\<close> receives.\<close>

record RequestInit =
  opt_method :: "string option"
  opt_headers :: "(string \<times> string) list option"
  opt_body :: "string option"

record Request =
  url :: string
  reqMethod :: "string option"
  headers :: "(string \<times> string) list"
  body :: "string option"

text \<open>
  What the client reads of a \<open>Response\<close>: \<open>bodyText\<close> is what \<open>response.text()\<close>
  resolves to, \<open>bodyJson\<close> what \<open>response.json()\<close> resolves to or rejects with.
\<close>

record Response =
  status :: nat
  statusText :: string
  bodyText :: string
  bodyJson :: "thrown + Json"

text \<open>
  The platform the client runs on. \<open>fetch n req\<close> is the outcome of the call \<open>req\<close>
  issued after \<open>n\<close> earlier calls (\<open>Inl\<close>: the promise rejects); \<open>isoNow n\<close> and
  \<open>msNow n\<close> are \<open>new Date().toISOString()\<close> and \<open>Date.now()\<close> read after \<open>n\<close>
  calls; \<open>stringify\<close> is \<open>JSON.stringify\<close>; \<open>inOperatorError k v\<close> is the message of
  the TypeError of \<open>k in v\<close> for a primitive \<open>v\<close>, \<open>readPropError k\<close> that of reading
  property \<open>k\<close> of \<open>null\<close>. For the tool handlers: \<open>pretty v\<close> is
  \<open>JSON.stringify(v, null, 2)\<close>, \<open>localeString s\<close> is \<open>new Date(s).toLocaleString()\<close>,
  and \<open>dateMs s\<close> is \<open>new Date(s).getTime()\<close>, \<open>None\<close> for NaN;
  \<open>doubleSeconds te ts\<close> is the text of \<open>Math.round((te - ts) / 1000)\<close> as IEEE double
  arithmetic computes it, used where that arithmetic is not exact on the integers.
\<close>

record World =
  fetch :: "nat \<Rightarrow> Request \<Rightarrow> thrown + Response"
  isoNow :: "nat \<Rightarrow> string"
  msNow :: "nat \<Rightarrow> int"
  stringify :: "Json \<Rightarrow> string"
  inOperatorError :: "string \<Rightarrow> Json \<Rightarrow> string"
  readPropError :: "string \<Rightarrow> string"
  pretty :: "Json \<Rightarrow> string"
  localeString :: "string \<Rightarrow> string"
  dateMs :: "string \<Rightarrow> int option"
  doubleSeconds :: "int \<Rightarrow> int \<Rightarrow> string"

text \<open>
  The client object: its configuration and the two diagnostic fields. \<open>calls\<close> is the
  log of the \<open>fetch\<close> calls issued so far, oldest first; the code does not keep it.
\<close>

record Client =
  config :: InngestConfig
  lastResponse :: "ApiResponse option"
  lastError :: "ApiError option"
  calls :: "Request list"

section \<open>Platform functions the client uses\<close>

fun starts_with :: "string \<Rightarrow> string \<Rightarrow> bool" where
  "starts_with s [] = True"
| "starts_with [] (c # cs) = False"
| "starts_with (x # xs) (c # cs) = (x = c \<and> starts_with xs cs)"

text \<open>\<open>String.prototype.includes\<close>.\<close>

fun str_includes :: "string \<Rightarrow> string \<Rightarrow> bool" where
  "str_includes [] sub = (sub = [])"
| "str_includes (x # xs) sub = (starts_with (x # xs) sub \<or> str_includes xs sub)"

definition digit :: "nat \<Rightarrow> char" where
  "digit n = char_of (48 + n)"

text \<open>A non-negative integer inside a template literal.\<close>

function show_nat :: "nat \<Rightarrow> string" where
  "show_nat n = (if n < 10 then [digit n] else show_nat (n div 10) @ [digit (n mod 10)])"
  by pat_completeness auto
termination
  by (relation "measure (\<lambda>n. n)") auto

declare show_nat.simps [simp del]

definition show_int :: "int \<Rightarrow> string" where
  "show_int i = (if i < 0 then CHR ''-'' # show_nat (nat (- i)) else show_nat (nat i))"

text \<open>Truthiness of a JSON value and of an optional string.\<close>

fun truthy :: "Json \<Rightarrow> bool" where
  "truthy JNull = False"
| "truthy (JBool b) = b"
| "truthy (JNum n) = (n \<noteq> 0)"
| "truthy (JStr s) = (s \<noteq> [])"
| "truthy (JArr xs) = True"
| "truthy (JObj kvs) = True"

fun truthy_str :: "string option \<Rightarrow> bool" where
  "truthy_str None = False"
| "truthy_str (Some s) = (s \<noteq> [])"

text \<open>
  Property assignment \<open>obj[k] = v\<close> on an object kept in insertion order, and the
  spread \<open>{...base, ...extra}\<close>.
\<close>

fun obj_set :: "string \<Rightarrow> 'v \<Rightarrow> (string \<times> 'v) list \<Rightarrow> (string \<times> 'v) list" where
  "obj_set k v [] = [(k, v)]"
| "obj_set k v (p # ps) = (if fst p = k then (k, v) # ps else p # obj_set k v ps)"

fun spread :: "(string \<times> 'v) list \<Rightarrow> (string \<times> 'v) list \<Rightarrow> (string \<times> 'v) list" where
  "spread base [] = base"
| "spread base (p # ps) = spread (obj_set (fst p) (snd p) base) ps"

text \<open>\<open>response.ok\<close>: the status is in the range 200 to 299.\<close>

definition ok :: "Response \<Rightarrow> bool" where
  "ok r = (200 \<le> status r \<and> status r \<le> 299)"

section \<open>The generic request operation\<close>

text \<open>
  The test the client repeats on its base URL
  (\<open>baseUrl.includes('localhost') || baseUrl.includes('127.0.0.1')\<close>).
\<close>

definition isLocal :: "InngestConfig \<Rightarrow> bool" where
  "isLocal c = (str_includes (baseUrl c) ''localhost'' \<or> str_includes (baseUrl c) ''127.0.0.1'')"

text \<open>The condition of \<open>apiRequest\<close> under which the Authorization header is added.\<close>

definition authRequired :: "InngestConfig \<Rightarrow> bool" where
  "authRequired c =
     (signingKey c \<noteq> [] \<and> signingKey c \<noteq> ''local-dev-key'' \<and>
      \<not> str_includes (baseUrl c) ''localhost'' \<and> \<not> str_includes (baseUrl c) ''127.0.0.1'')"

text \<open>The \<open>headers\<close> object \<open>apiRequest\<close> builds, statement by statement.\<close>

definition requestHeaders :: "InngestConfig \<Rightarrow> RequestInit \<Rightarrow> (string \<times> string) list" where
  "requestHeaders c options =
     (let h0 = spread [(''Content-Type'', ''application/json'')]
                 (case opt_headers options of None \<Rightarrow> [] | Some h \<Rightarrow> h);
          h1 = (if truthy_str (env c) then obj_set ''X-Inngest-Env'' (the (env c)) h0 else h0)
      in if authRequired c
         then obj_set ''Authorization'' (''Bearer '' @ signingKey c) h1
         else h1)"

text \<open>The call \<open>fetch(url, {...options, headers})\<close>.\<close>

definition mkRequest :: "InngestConfig \<Rightarrow> RequestInit \<Rightarrow> string \<Rightarrow> Request" where
  "mkRequest c options endpoint =
     \<lparr> url = baseUrl c @ endpoint,
       reqMethod = opt_method options,
       headers = requestHeaders c options,
       body = opt_body options \<rparr>"

definition apiErrorMessage :: "Response \<Rightarrow> string" where
  "apiErrorMessage r =
     ''Inngest API error: '' @ show_nat (status r) @ '' '' @ statusText r @ '' - '' @ bodyText r"

definition apiRequest ::
  "World \<Rightarrow> string \<Rightarrow> RequestInit \<Rightarrow> Client \<Rightarrow> (thrown + Json) \<times> Client" where
  "apiRequest W endpoint options st =
     (let req = mkRequest (config st) options endpoint;
          st1 = st\<lparr>calls := calls st @ [req]\<rparr>
      in case fetch W (length (calls st)) req of
           Inl e \<Rightarrow> (Inl e, st1)
         | Inr response \<Rightarrow>
             if \<not> ok response then (Inl (Err (apiErrorMessage response)), st1)
             else (case bodyJson response of
                     Inl e \<Rightarrow> (Inl e, st1)
                   | Inr responseData \<Rightarrow>
                       (Inr responseData,
                        st1\<lparr>lastResponse := Some
                           \<lparr> resp_url = url req,
                             resp_status = status response,
                             resp_data = responseData,
                             resp_timestamp = isoNow W (length (calls st1)) \<rparr>\<rparr>)))"

section \<open>The operations of the client\<close>

text \<open>The constructor: a client that has issued no request yet.\<close>

definition newClient :: "InngestConfig \<Rightarrow> Client" where
  "newClient c = \<lparr> config = c, lastResponse = None, lastError = None, calls = [] \<rparr>"

text \<open>The options of a call without a second argument, and \<open>{ method: 'POST' }\<close>.\<close>

definition noOptions :: RequestInit where
  "noOptions = \<lparr> opt_method = None, opt_headers = None, opt_body = None \<rparr>"

definition postOptions :: RequestInit where
  "postOptions = \<lparr> opt_method = Some ''POST'', opt_headers = None, opt_body = None \<rparr>"

text \<open>
  \<open>response.data || []\<close> on a parsed body: reading a property of \<open>null\<close> throws, any
  other value without a truthy \<open>data\<close> gives the empty array.
\<close>

fun dataOrEmpty :: "World \<Rightarrow> Json \<Rightarrow> thrown + Json" where
  "dataOrEmpty W JNull = Inl (Err (readPropError W ''data''))"
| "dataOrEmpty W (JObj kvs) =
     (case map_of kvs ''data'' of
        None \<Rightarrow> Inr (JArr [])
      | Some d \<Rightarrow> Inr (if truthy d then d else JArr []))"
| "dataOrEmpty W v = Inr (JArr [])"

definition getEventRuns :: "World \<Rightarrow> string \<Rightarrow> Client \<Rightarrow> (thrown + Json) \<times> Client" where
  "getEventRuns W eventId st =
     (case apiRequest W (''/v1/events/'' @ eventId @ ''/runs'') noOptions st of
        (Inl e, st1) \<Rightarrow> (Inl e, st1)
      | (Inr response, st1) \<Rightarrow> (dataOrEmpty W response, st1))"

text \<open>\<open>limit\<close> is \<open>None\<close> when the caller leaves it out (default 20).\<close>

definition getFunctionRuns ::
  "World \<Rightarrow> string \<Rightarrow> int option \<Rightarrow> Client \<Rightarrow> (thrown + Json) \<times> Client" where
  "getFunctionRuns W functionId limit st =
     (let lim = (case limit of None \<Rightarrow> 20 | Some l \<Rightarrow> l);
          (r, st1) = (case apiRequest W
                             (''/v1/functions/'' @ functionId @ ''/runs?limit='' @ show_int lim)
                             noOptions st of
                        (Inl e, st1) \<Rightarrow> (Inl e, st1)
                      | (Inr response, st1) \<Rightarrow> (dataOrEmpty W response, st1))
      in case r of
           Inr runs \<Rightarrow> (Inr runs, st1)
         | Inl e \<Rightarrow> if isLocal (config st1) then (Inr (JArr []), st1) else (Inl e, st1))"

text \<open>
  \<open>error instanceof Error ? error : new Error(String(error))\<close>, read at \<open>.message\<close>,
  and \<open>lastError?.message || 'Unknown error'\<close>.
\<close>

fun errorMessage :: "thrown \<Rightarrow> string" where
  "errorMessage (Err m) = m"
| "errorMessage (Other s) = s"

fun lastErrorText :: "string option \<Rightarrow> string" where
  "lastErrorText None = ''Unknown error''"
| "lastErrorText (Some m) = (if m = [] then ''Unknown error'' else m)"

text \<open>
  One pass through the \<open>try\<close> block of a candidate loop: the request, then the code
  \<open>tryBody\<close> that follows it (\<open>Inr (Some v)\<close>: \<open>return v\<close>; \<open>Inr None\<close>: the block
  ends without returning; \<open>Inl e\<close>: it throws).
\<close>

definition attempt ::
  "World \<Rightarrow> RequestInit \<Rightarrow> (Json \<Rightarrow> thrown + 'a option) \<Rightarrow> string \<Rightarrow> Client
     \<Rightarrow> (thrown + 'a option) \<times> Client" where
  "attempt W options tryBody endpoint st =
     (case apiRequest W endpoint options st of
        (Inl e, st1) \<Rightarrow> (Inl e, st1)
      | (Inr response, st1) \<Rightarrow> (tryBody response, st1))"

text \<open>
  The loop \<open>for (const endpoint of possibleEndpoints) { try { ... } catch (error) { ... } }\<close>
  that getRunDetails, cancelRun and replayRun each carry, with the local variable
  \<open>lastError\<close> as an argument. \<open>Inl lastError\<close> is the loop running off its end.
\<close>

fun tryEndpoints ::
  "World \<Rightarrow> RequestInit \<Rightarrow> (Json \<Rightarrow> thrown + 'a option) \<Rightarrow> string list \<Rightarrow> string option
     \<Rightarrow> Client \<Rightarrow> (string option + 'a) \<times> Client" where
  "tryEndpoints W options tryBody [] lastErr st = (Inl lastErr, st)"
| "tryEndpoints W options tryBody (endpoint # rest) lastErr st =
     (case attempt W options tryBody endpoint st of
        (Inr (Some v), st1) \<Rightarrow> (Inr v, st1)
      | (Inr None, st1) \<Rightarrow> tryEndpoints W options tryBody rest lastErr st1
      | (Inl e, st1) \<Rightarrow>
          tryEndpoints W options tryBody rest (Some (errorMessage e))
            (st1\<lparr>lastError := Some \<lparr> message = errorMessage e,
                                      err_timestamp = isoNow W (length (calls st1)) \<rparr>\<rparr>))"

text \<open>
  The \<open>try\<close> block of getRunDetails after the request: \<open>'data' in response\<close> throws a
  TypeError on a primitive; an array has neither property.
\<close>

fun runDetailsBody :: "World \<Rightarrow> Json \<Rightarrow> thrown + Json option" where
  "runDetailsBody W (JObj kvs) =
     (case map_of kvs ''data'' of
        Some d \<Rightarrow>
          if truthy d then Inr (Some d)
          else if map_of kvs ''run_id'' \<noteq> None then Inr (Some (JObj kvs)) else Inr None
      | None \<Rightarrow> if map_of kvs ''run_id'' \<noteq> None then Inr (Some (JObj kvs)) else Inr None)"
| "runDetailsBody W (JArr xs) = Inr None"
| "runDetailsBody W v = Inl (Err (inOperatorError W ''data'' v))"

definition runDetailsEndpoints :: "string \<Rightarrow> string list" where
  "runDetailsEndpoints runId =
     [''/v0/runs/'' @ runId, ''/v1/runs/'' @ runId, ''/runs/'' @ runId]"

definition getRunDetails :: "World \<Rightarrow> string \<Rightarrow> Client \<Rightarrow> (thrown + Json) \<times> Client" where
  "getRunDetails W runId st =
     (if isLocal (config st)
      then (Inl (Err ''Run details not available in development mode. Please use Inngest Cloud for run management features.''), st)
      else case tryEndpoints W noOptions (runDetailsBody W) (runDetailsEndpoints runId) None st of
             (Inr run, st1) \<Rightarrow> (Inr run, st1)
           | (Inl lastErr, st1) \<Rightarrow>
               (Inl (Err (''Failed to get run details for '' @ runId @ ''. Last error: ''
                            @ lastErrorText lastErr)), st1))"

definition getRunSteps :: "World \<Rightarrow> string \<Rightarrow> Client \<Rightarrow> (thrown + Json) \<times> Client" where
  "getRunSteps W runId st = (Inr (JArr []), st)"

text \<open>The result \<open>{ success: true }\<close> of cancelRun and replayRun.\<close>

record SuccessResult =
  success :: bool

definition successBody :: "Json \<Rightarrow> thrown + SuccessResult option" where
  "successBody response = Inr (Some \<lparr> success = True \<rparr>)"

definition cancelEndpoints :: "string \<Rightarrow> string list" where
  "cancelEndpoints runId =
     [''/v0/runs/'' @ runId @ ''/cancel'', ''/v1/runs/'' @ runId @ ''/cancel'',
      ''/runs/'' @ runId @ ''/cancel'']"

definition cancelRun :: "World \<Rightarrow> string \<Rightarrow> Client \<Rightarrow> (thrown + SuccessResult) \<times> Client" where
  "cancelRun W runId st =
     (if isLocal (config st)
      then (Inl (Err ''Run cancellation not available in development mode. Please use Inngest Cloud for run management features.''), st)
      else case tryEndpoints W postOptions successBody (cancelEndpoints runId) None st of
             (Inr r, st1) \<Rightarrow> (Inr r, st1)
           | (Inl lastErr, st1) \<Rightarrow>
               (Inl (Err (''Failed to cancel run '' @ runId @ ''. Last error: ''
                            @ lastErrorText lastErr)), st1))"

record BulkCancelParams =
  functionId :: "string option"
  startedAfter :: "string option"
  startedBefore :: "string option"
  condition :: "string option"

text \<open>The object \<open>requestBody\<close> of bulkCancelRuns, one conditional assignment after another.\<close>

definition bulkCancelBody :: "BulkCancelParams \<Rightarrow> (string \<times> Json) list" where
  "bulkCancelBody params =
     (let b0 = [];
          b1 = (if truthy_str (functionId params)
                then obj_set ''function_id'' (JStr (the (functionId params))) b0 else b0);
          b2 = (if truthy_str (startedAfter params)
                then obj_set ''started_after'' (JStr (the (startedAfter params))) b1 else b1);
          b3 = (if truthy_str (startedBefore params)
                then obj_set ''started_before'' (JStr (the (startedBefore params))) b2 else b2)
      in if truthy_str (condition params)
         then obj_set ''if'' (JStr (the (condition params))) b3 else b3)"

definition bulkCancelRuns ::
  "World \<Rightarrow> BulkCancelParams \<Rightarrow> Client \<Rightarrow> (thrown + Json) \<times> Client" where
  "bulkCancelRuns W params st =
     (case apiRequest W ''/v1/cancellations''
             \<lparr> opt_method = Some ''POST'', opt_headers = None,
               opt_body = Some (stringify W (JObj (bulkCancelBody params))) \<rparr> st of
        (Inr response, st1) \<Rightarrow> (Inr response, st1)
      | (Inl e, st1) \<Rightarrow>
          if isLocal (config st1)
          then (Inl (Err ''Bulk cancellation not available in development mode. Please use Inngest Cloud for run management features.''), st1)
          else (Inl e, st1))"

definition replayEndpoints :: "string \<Rightarrow> string list" where
  "replayEndpoints runId =
     [''/v0/runs/'' @ runId @ ''/replay'', ''/v1/runs/'' @ runId @ ''/replay'',
      ''/runs/'' @ runId @ ''/replay'',
      ''/v0/runs/'' @ runId @ ''/retry'', ''/v1/runs/'' @ runId @ ''/retry'',
      ''/runs/'' @ runId @ ''/retry'']"

definition replayRun :: "World \<Rightarrow> string \<Rightarrow> Client \<Rightarrow> (thrown + SuccessResult) \<times> Client" where
  "replayRun W runId st =
     (if isLocal (config st)
      then (Inl (Err ''Run replay not available in development mode. Please use Inngest Cloud for run management features.''), st)
      else case tryEndpoints W postOptions successBody (replayEndpoints runId) None st of
             (Inr r, st1) \<Rightarrow> (Inr r, st1)
           | (Inl lastErr, st1) \<Rightarrow>
               (Inl (Err (''Failed to replay run '' @ runId @ ''. Last error: ''
                            @ lastErrorText lastErr)), st1))"

definition sendEvent :: "World \<Rightarrow> string \<Rightarrow> Json \<Rightarrow> Client \<Rightarrow> (thrown + Json) \<times> Client" where
  "sendEvent W eventName payload st =
     apiRequest W ''/v1/events''
       \<lparr> opt_method = Some ''POST'', opt_headers = None,
         opt_body = Some (stringify W (JObj [(''name'', JStr eventName), (''data'', payload),
                            (''timestamp'', JNum (msNow W (length (calls st))))])) \<rparr> st"

definition getLastError :: "Client \<Rightarrow> ApiError option" where
  "getLastError st = lastError st"

definition getLastResponse :: "Client \<Rightarrow> ApiResponse option" where
  "getLastResponse st = lastResponse st"

definition getConfig :: "Client \<Rightarrow> InngestConfig" where
  "getConfig st = config st"

section \<open>The tool handlers (index.ts)\<close>

datatype RunStatus = Running | Completed | Failed | Cancelled | Paused

datatype StepStatus = StepRunning | StepCompleted | StepFailed | StepSkipped

record WorkflowStep =
  step_id :: string
  step_name :: string
  step_status :: StepStatus
  step_started_at :: string
  step_ended_at :: "string option"
  step_output :: "Json option"
  step_error :: "string option"
  duration_ms :: "int option"

record WorkflowRun =
  run_id :: string
  run_started_at :: string
  function_id :: string
  function_version :: int
  environment_id :: string
  event_id :: string
  run_status :: RunStatus
  ended_at :: "string option"
  run_output :: "Json option"
  run_steps :: "WorkflowStep list option"

text \<open>
  The client casts a parsed body to its declared result type without a check
  (\<open>as WorkflowRun\<close>, \<open>as { id: string }\<close>), and the handlers read the result at
  that type. The functions below read a JSON value at the declared interfaces: an object
  with every required field of the declared type and every optional field absent or of
  the declared type. Numbers are read where the double is a whole number of at most
  \<open>2^53\<close> in size, so that a template literal prints its digits.
\<close>

definition reqStr :: "(string \<times> Json) list \<Rightarrow> string \<Rightarrow> string option" where
  "reqStr kvs k = (case map_of kvs k of Some (JStr s) \<Rightarrow> Some s | _ \<Rightarrow> None)"

definition optStr :: "(string \<times> Json) list \<Rightarrow> string \<Rightarrow> string option option" where
  "optStr kvs k =
     (case map_of kvs k of
        None \<Rightarrow> Some None
      | Some (JStr s) \<Rightarrow> Some (Some s)
      | _ \<Rightarrow> None)"

definition safeNumber :: "int \<Rightarrow> bool" where
  "safeNumber n = (\<bar>n\<bar> \<le> 2 ^ 53)"

definition reqNum :: "(string \<times> Json) list \<Rightarrow> string \<Rightarrow> int option" where
  "reqNum kvs k =
     (case map_of kvs k of
        Some (JNum n) \<Rightarrow> if safeNumber n then Some n else None
      | _ \<Rightarrow> None)"

definition optNum :: "(string \<times> Json) list \<Rightarrow> string \<Rightarrow> int option option" where
  "optNum kvs k =
     (case map_of kvs k of
        None \<Rightarrow> Some None
      | Some (JNum n) \<Rightarrow> if safeNumber n then Some (Some n) else None
      | _ \<Rightarrow> None)"

definition asRunStatus :: "string \<Rightarrow> RunStatus option" where
  "asRunStatus s =
     (if s = ''Running'' then Some Running
      else if s = ''Completed'' then Some Completed
      else if s = ''Failed'' then Some Failed
      else if s = ''Cancelled'' then Some Cancelled
      else if s = ''Paused'' then Some Paused
      else None)"

definition asStepStatus :: "string \<Rightarrow> StepStatus option" where
  "asStepStatus s =
     (if s = ''Running'' then Some StepRunning
      else if s = ''Completed'' then Some StepCompleted
      else if s = ''Failed'' then Some StepFailed
      else if s = ''Skipped'' then Some StepSkipped
      else None)"

fun asStep :: "Json \<Rightarrow> WorkflowStep option" where
  "asStep (JObj kvs) =
     Option.bind (reqStr kvs ''id'') (\<lambda>i.
     Option.bind (reqStr kvs ''name'') (\<lambda>n.
     Option.bind (Option.bind (reqStr kvs ''status'') asStepStatus) (\<lambda>s.
     Option.bind (reqStr kvs ''started_at'') (\<lambda>b.
     Option.bind (optStr kvs ''ended_at'') (\<lambda>e.
     Option.bind (optStr kvs ''error'') (\<lambda>r.
     Option.bind (optNum kvs ''duration_ms'') (\<lambda>d.
       Some \<lparr> step_id = i, step_name = n, step_status = s, step_started_at = b,
              step_ended_at = e, step_output = map_of kvs ''output'', step_error = r,
              duration_ms = d \<rparr>)))))))"
| "asStep v = None"

definition optSteps :: "(string \<times> Json) list \<Rightarrow> WorkflowStep list option option" where
  "optSteps kvs =
     (case map_of kvs ''steps'' of
        None \<Rightarrow> Some None
      | Some (JArr xs) \<Rightarrow> map_option Some (those (map asStep xs))
      | _ \<Rightarrow> None)"

fun asRun :: "Json \<Rightarrow> WorkflowRun option" where
  "asRun (JObj kvs) =
     Option.bind (reqStr kvs ''run_id'') (\<lambda>i.
     Option.bind (reqStr kvs ''run_started_at'') (\<lambda>b.
     Option.bind (reqStr kvs ''function_id'') (\<lambda>f.
     Option.bind (reqNum kvs ''function_version'') (\<lambda>v.
     Option.bind (reqStr kvs ''environment_id'') (\<lambda>n.
     Option.bind (reqStr kvs ''event_id'') (\<lambda>t.
     Option.bind (Option.bind (reqStr kvs ''status'') asRunStatus) (\<lambda>s.
     Option.bind (optStr kvs ''ended_at'') (\<lambda>e.
     Option.bind (optSteps kvs) (\<lambda>ss.
       Some \<lparr> run_id = i, run_started_at = b, function_id = f, function_version = v,
              environment_id = n, event_id = t, run_status = s, ended_at = e,
              run_output = map_of kvs ''output'', run_steps = ss \<rparr>)))))))))"
| "asRun v = None"

fun asRuns :: "Json \<Rightarrow> WorkflowRun list option" where
  "asRuns (JArr xs) = those (map asRun xs)"
| "asRuns v = None"

text \<open>
  What is left to the platform. \<open>asEventId\<close> is the text of \<open>result.id\<close> in the
  template literal of send_event. A result of getEventRuns or getRunDetails that is not
  of its declared type is rendered by the same code with the property reads, coercions
  and method calls of the language: \<open>untypedEventRuns\<close> and \<open>untypedRunDetails\<close> give
  what that code does inside \<open>try\<close>, the text it builds or the value it throws.
\<close>

record Views =
  asEventId :: "Json \<Rightarrow> string"
  untypedEventRuns :: "string \<Rightarrow> int \<Rightarrow> Json \<Rightarrow> thrown + string"
  untypedRunDetails :: "string \<Rightarrow> Json \<Rightarrow> thrown + string"

text \<open>The value \<open>{ content: [{ type: 'text', text }] }\<close> a handler returns.\<close>

datatype ToolResult = TextContent string

definition nl :: string where
  "nl = [CHR 0x0A]"

fun showRunStatus :: "RunStatus \<Rightarrow> string" where
  "showRunStatus Running = ''Running''"
| "showRunStatus Completed = ''Completed''"
| "showRunStatus Failed = ''Failed''"
| "showRunStatus Cancelled = ''Cancelled''"
| "showRunStatus Paused = ''Paused''"

fun showStepStatus :: "StepStatus \<Rightarrow> string" where
  "showStepStatus StepRunning = ''Running''"
| "showStepStatus StepCompleted = ''Completed''"
| "showStepStatus StepFailed = ''Failed''"
| "showStepStatus StepSkipped = ''Skipped''"

fun truthy_opt :: "Json option \<Rightarrow> bool" where
  "truthy_opt None = False"
| "truthy_opt (Some v) = truthy v"

text \<open>
  \<open>Math.round((new Date(e).getTime() - new Date(s).getTime()) / 1000)\<close> inside a
  template literal; an invalid date gives NaN. The code computes in doubles. While both
  time values and their difference \<open>d\<close> are at most \<open>2^53\<close> in size, the subtraction is
  exact, the quotient is within \<open>2^-10\<close> of \<open>d / 1000\<close> and exact at every half, and
  \<open>Math.round\<close>, which rounds a half up, gives \<open>(d + 500) div 1000\<close>. Outside that
  range the number is the platform's.
\<close>

definition exactRange :: "int \<Rightarrow> int \<Rightarrow> bool" where
  "exactRange te ts = (\<bar>te\<bar> \<le> 2 ^ 53 \<and> \<bar>ts\<bar> \<le> 2 ^ 53 \<and> \<bar>te - ts\<bar> \<le> 2 ^ 53)"

definition durationText :: "World \<Rightarrow> string \<Rightarrow> string \<Rightarrow> string" where
  "durationText W e s =
     (case (dateMs W e, dateMs W s) of
        (Some te, Some ts) \<Rightarrow>
          if exactRange te ts then show_int ((te - ts + 500) div 1000)
          else doubleSeconds W te ts
      | _ \<Rightarrow> ''NaN'')"

text \<open>
  A handler builds its text by appending one piece after another (\<open>summary += ...\<close>);
  the pieces are kept as a list and joined at the end. These are the pieces of the
  block \<open>if (run.ended_at) { ... }\<close>, which both run-rendering handlers carry.
\<close>

definition endedPieces :: "World \<Rightarrow> WorkflowRun \<Rightarrow> string list" where
  "endedPieces W run =
     (if truthy_str (ended_at run)
      then [''**Ended:** '' @ localeString W (the (ended_at run)) @ nl,
            ''**Duration:** '' @ durationText W (the (ended_at run)) (run_started_at run)
               @ ''s'' @ nl]
      else [])"

text \<open>\<open>send_event\<close>.\<close>

definition send_event ::
  "World \<Rightarrow> Views \<Rightarrow> string \<Rightarrow> Json \<Rightarrow> Client \<Rightarrow> ToolResult \<times> Client" where
  "send_event W V eventName payload st =
     (case sendEvent W eventName payload st of
        (Inr result, st1) \<Rightarrow>
          (TextContent
             (''**Event sent successfully**'' @ nl @ nl
              @ ''**Event Name:** '' @ eventName @ nl
              @ ''**Event ID:** '' @ asEventId V result @ nl
              @ ''**Data:** ```json'' @ nl
              @ pretty W payload @ nl
              @ ''```'' @ nl @ nl
              @ ''The event has been sent to Inngest and will trigger any functions listening for this event.''),
           st1)
      | (Inl e, st1) \<Rightarrow>
          (TextContent (''**Error sending event:** '' @ errorMessage e), st1))"

text \<open>\<open>runs.slice(0, limit)\<close>: a negative end counts from the end of the array.\<close>

definition sliceTo :: "int \<Rightarrow> 'a list \<Rightarrow> 'a list" where
  "sliceTo limit xs =
     (if limit < 0 then take (nat (int (length xs) + limit)) xs else take (nat limit) xs)"

text \<open>
  \<open>get_event_runs\<close>: the pieces appended for one run, then the handler. A result of
  the declared type is rendered piece by piece; the rendering is inside \<open>try\<close>, so what
  it throws on any other result ends in the \<open>catch\<close> as well.
\<close>

definition eventRunPieces :: "World \<Rightarrow> nat \<Rightarrow> WorkflowRun \<Rightarrow> string list" where
  "eventRunPieces W index run =
     [''## Run '' @ show_nat (index + 1) @ nl,
      ''**Run ID:** '' @ run_id run @ nl,
      ''**Status:** '' @ showRunStatus (run_status run) @ nl,
      ''**Started:** '' @ localeString W (run_started_at run) @ nl]
     @ endedPieces W run
     @ (if truthy_opt (run_output run)
        then [''**Output:** ```json'' @ nl @ pretty W (the (run_output run)) @ nl @ ''```'' @ nl]
        else [])
     @ [nl]"

definition get_event_runs ::
  "World \<Rightarrow> Views \<Rightarrow> string \<Rightarrow> int \<Rightarrow> Client \<Rightarrow> ToolResult \<times> Client" where
  "get_event_runs W V eventId limit st =
     (case getEventRuns W eventId st of
        (Inr response, st1) \<Rightarrow>
          (case asRuns response of
             Some runs \<Rightarrow>
               if length runs = 0
               then (TextContent (''No runs found for event ID: '' @ eventId), st1)
               else (TextContent
                       (concat
                          ([''# Event Runs: '' @ eventId @ nl @ nl,
                            ''**Total runs:** '' @ show_nat (length runs) @ nl @ nl]
                           @ concat (map (\<lambda>(index, run). eventRunPieces W index run)
                                      (enumerate 0 (sliceTo limit runs))))),
                     st1)
           | None \<Rightarrow>
               (case untypedEventRuns V eventId limit response of
                  Inr summary \<Rightarrow> (TextContent summary, st1)
                | Inl e \<Rightarrow>
                    (TextContent (''Error getting event runs: '' @ errorMessage e), st1)))
      | (Inl e, st1) \<Rightarrow>
          (TextContent (''Error getting event runs: '' @ errorMessage e), st1))"

text \<open>\<open>get_run_details\<close>.\<close>

definition stepPieces :: "nat \<Rightarrow> WorkflowStep \<Rightarrow> string list" where
  "stepPieces index step =
     [''**'' @ show_nat (index + 1) @ ''. '' @ step_name step @ ''** (''
        @ showStepStatus (step_status step) @ '')'' @ nl]
     @ (case duration_ms step of
          Some d \<Rightarrow> if d \<noteq> 0 then [''   - Duration: '' @ show_int d @ ''ms'' @ nl] else []
        | None \<Rightarrow> [])
     @ (if truthy_str (step_error step)
        then [''   - Error: '' @ the (step_error step) @ nl] else [])
     @ [nl]"

definition runDetailsPieces :: "World \<Rightarrow> string \<Rightarrow> WorkflowRun \<Rightarrow> string list" where
  "runDetailsPieces W runId runDetails =
     [''# Run Details: '' @ runId @ nl @ nl,
      ''**Run ID:** '' @ run_id runDetails @ nl,
      ''**Function ID:** '' @ function_id runDetails @ nl,
      ''**Function Version:** '' @ show_int (function_version runDetails) @ nl,
      ''**Environment ID:** '' @ environment_id runDetails @ nl,
      ''**Event ID:** '' @ event_id runDetails @ nl,
      ''**Status:** '' @ showRunStatus (run_status runDetails) @ nl,
      ''**Started:** '' @ localeString W (run_started_at runDetails) @ nl]
     @ endedPieces W runDetails
     @ (if truthy_opt (run_output runDetails)
        then [nl @ ''**Output:**'' @ nl @ ''```json'' @ nl @ pretty W (the (run_output runDetails))
                @ nl @ ''```'' @ nl]
        else [])
     @ (case run_steps runDetails of
          Some (s # ss) \<Rightarrow>
            (nl @ ''## Steps ('' @ show_nat (length (s # ss)) @ '' found in run response)''
               @ nl @ nl)
            # concat (map (\<lambda>(index, step). stepPieces index step) (enumerate 0 (s # ss)))
        | _ \<Rightarrow>
            [nl @ ''> **Note:** Step-by-step execution timeline is only available in the Inngest dashboard (uses GraphQL). The REST API provides run-level details only.''])"

definition get_run_details ::
  "World \<Rightarrow> Views \<Rightarrow> string \<Rightarrow> Client \<Rightarrow> ToolResult \<times> Client" where
  "get_run_details W V runId st =
     (case getRunDetails W runId st of
        (Inr response, st1) \<Rightarrow>
          (case asRun response of
             Some runDetails \<Rightarrow>
               (TextContent (concat (runDetailsPieces W runId runDetails)), st1)
           | None \<Rightarrow>
               (case untypedRunDetails V runId response of
                  Inr out \<Rightarrow> (TextContent out, st1)
                | Inl e \<Rightarrow>
                    (TextContent (''Error getting run details: ''
                       @ (case e of Err m \<Rightarrow> m | Other v \<Rightarrow> ''Unknown error'')), st1)))
      | (Inl e, st1) \<Rightarrow>
          (TextContent (''Error getting run details: ''
                          @ (case e of Err m \<Rightarrow> m | Other v \<Rightarrow> ''Unknown error'')), st1))"

text \<open>\<open>manage_run\<close>: the \<open>switch\<close> on the action string.\<close>

definition manage_run ::
  "World \<Rightarrow> string \<Rightarrow> string \<Rightarrow> Client \<Rightarrow> ToolResult \<times> Client" where
  "manage_run W runId action st =
     (if action = ''cancel'' then
        (case cancelRun W runId st of
           (Inr r, st1) \<Rightarrow> (TextContent (''Cancelled run '' @ runId), st1)
         | (Inl e, st1) \<Rightarrow> (TextContent (''Error managing run: '' @ errorMessage e), st1))
      else if action = ''replay'' then
        (case replayRun W runId st of
           (Inr r, st1) \<Rightarrow> (TextContent (''Replayed run '' @ runId), st1)
         | (Inl e, st1) \<Rightarrow> (TextContent (''Error managing run: '' @ errorMessage e), st1))
      else (TextContent (''Unknown action: '' @ action), st))"

text \<open>\<open>debug_connection\<close>: it reads the two diagnostic fields and has no \<open>try\<close>.\<close>

definition apiResponseJson :: "ApiResponse \<Rightarrow> Json" where
  "apiResponseJson r =
     JObj [(''url'', JStr (resp_url r)), (''status'', JNum (int (resp_status r))),
           (''data'', resp_data r), (''timestamp'', JStr (resp_timestamp r))]"

definition apiErrorJson :: "ApiError \<Rightarrow> Json" where
  "apiErrorJson e = JObj [(''message'', JStr (message e)), (''timestamp'', JStr (err_timestamp e))]"

definition debug_connection :: "World \<Rightarrow> Client \<Rightarrow> ToolResult \<times> Client" where
  "debug_connection W st =
     (TextContent
        (''**Inngest Configuration:**'' @ nl
         @ ''- Base URL: '' @ baseUrl (config st) @ nl
         @ ''- Has Signing Key: '' @ (if signingKey (config st) \<noteq> [] then ''true'' else ''false'') @ nl
         @ ''- Environment: '' @ (if truthy_str (env (config st)) then the (env (config st)) else ''not set'')
         @ nl @ nl
         @ ''**Last API Response:** ''
         @ (case getLastResponse st of Some r \<Rightarrow> pretty W (apiResponseJson r) | None \<Rightarrow> ''None'')
         @ nl @ nl
         @ ''**Last Error:** ''
         @ (case getLastError st of Some e \<Rightarrow> pretty W (apiErrorJson e) | None \<Rightarrow> ''None'')),
      st)"

section \<open>Input shapes and tool invocation\<close>

text \<open>
  The input schemas declared in index.ts, as validators of the raw argument object:
  \<open>z.string()\<close> accepts a string, \<open>z.number().optional().default(10)\<close> a number or
  an absent key (then 10), \<open>z.record(z.unknown())\<close> an object, \<open>z.enum\<close> one of the
  listed strings. Keys that are not declared are dropped.
\<close>

datatype ToolArgs =
    SendEventArgs string Json
  | EventRunsArgs string int
  | RunHistoryArgs string
  | RunActionArgs string string
  | NoArgs

fun sendEventSchema :: "Json \<Rightarrow> ToolArgs option" where
  "sendEventSchema (JObj kvs) =
     (case (map_of kvs ''eventName'', map_of kvs ''data'') of
        (Some (JStr eventName), Some (JObj d)) \<Rightarrow> Some (SendEventArgs eventName (JObj d))
      | _ \<Rightarrow> None)"
| "sendEventSchema v = None"

fun eventRunsSchema :: "Json \<Rightarrow> ToolArgs option" where
  "eventRunsSchema (JObj kvs) =
     (case (map_of kvs ''eventId'', map_of kvs ''limit'') of
        (Some (JStr eventId), None) \<Rightarrow> Some (EventRunsArgs eventId 10)
      | (Some (JStr eventId), Some (JNum limit)) \<Rightarrow> Some (EventRunsArgs eventId limit)
      | _ \<Rightarrow> None)"
| "eventRunsSchema v = None"

fun runHistorySchema :: "Json \<Rightarrow> ToolArgs option" where
  "runHistorySchema (JObj kvs) =
     (case map_of kvs ''runId'' of
        Some (JStr runId) \<Rightarrow> Some (RunHistoryArgs runId)
      | _ \<Rightarrow> None)"
| "runHistorySchema v = None"

fun runActionSchema :: "Json \<Rightarrow> ToolArgs option" where
  "runActionSchema (JObj kvs) =
     (case (map_of kvs ''runId'', map_of kvs ''action'') of
        (Some (JStr runId), Some (JStr action)) \<Rightarrow>
          if action = ''cancel'' \<or> action = ''replay''
          then Some (RunActionArgs runId action) else None
      | _ \<Rightarrow> None)"
| "runActionSchema v = None"

fun emptySchema :: "Json \<Rightarrow> ToolArgs option" where
  "emptySchema (JObj kvs) = Some NoArgs"
| "emptySchema v = None"

text \<open>The five tools index.ts registers, each with its schema.\<close>

datatype Tool = SendEventTool | GetEventRunsTool | GetRunDetailsTool | ManageRunTool
  | DebugConnectionTool

fun inputSchema :: "Tool \<Rightarrow> Json \<Rightarrow> ToolArgs option" where
  "inputSchema SendEventTool = sendEventSchema"
| "inputSchema GetEventRunsTool = eventRunsSchema"
| "inputSchema GetRunDetailsTool = runHistorySchema"
| "inputSchema ManageRunTool = runActionSchema"
| "inputSchema DebugConnectionTool = emptySchema"

text \<open>
  What the caller of a tool sees: a protocol-level failure, or the value the handler
  returned.
\<close>

datatype CallOutcome = ProtocolFailure | Returned ToolResult

text \<open>
  Modelled from the spec: the tool-invocation layer, which is a library and not code of
  this repository. It checks the arguments against the tool's declared shape before the
  handler runs; a mismatch is a protocol-level failure, otherwise the caller receives
  what the handler returns.
\<close>

fun callTool :: "World \<Rightarrow> Views \<Rightarrow> Tool \<Rightarrow> Json \<Rightarrow> Client \<Rightarrow> CallOutcome \<times> Client" where
  "callTool W V tool raw st =
     (case (tool, inputSchema tool raw) of
        (SendEventTool, Some (SendEventArgs eventName payload)) \<Rightarrow>
          (case send_event W V eventName payload st of (r, st1) \<Rightarrow> (Returned r, st1))
      | (GetEventRunsTool, Some (EventRunsArgs eventId limit)) \<Rightarrow>
          (case get_event_runs W V eventId limit st of (r, st1) \<Rightarrow> (Returned r, st1))
      | (GetRunDetailsTool, Some (RunHistoryArgs runId)) \<Rightarrow>
          (case get_run_details W V runId st of (r, st1) \<Rightarrow> (Returned r, st1))
      | (ManageRunTool, Some (RunActionArgs runId action)) \<Rightarrow>
          (case manage_run W runId action st of (r, st1) \<Rightarrow> (Returned r, st1))
      | (DebugConnectionTool, Some NoArgs) \<Rightarrow>
          (case debug_connection W st of (r, st1) \<Rightarrow> (Returned r, st1))
      | _ \<Rightarrow> (ProtocolFailure, st))"

section \<open>Notions for stating the properties\<close>

text \<open>The requests a client operation adds to the log.\<close>

definition issued :: "Client \<Rightarrow> Client \<Rightarrow> Request list" where
  "issued st st1 = drop (length (calls st)) (calls st1)"

text \<open>
  The state in which candidate \<open>j\<close> of a list is tried when no earlier candidate
  returned: the requests for the candidates before it are in the log. \<open>outcomeAt\<close> is
  what the \<open>try\<close> block does there.
\<close>

definition reached :: "RequestInit \<Rightarrow> string list \<Rightarrow> Client \<Rightarrow> nat \<Rightarrow> Client" where
  "reached options endpoints st j =
     st\<lparr>calls := calls st @ map (mkRequest (config st) options) (take j endpoints)\<rparr>"

definition outcomeAt ::
  "World \<Rightarrow> RequestInit \<Rightarrow> (Json \<Rightarrow> thrown + 'a option) \<Rightarrow> string list \<Rightarrow> Client \<Rightarrow> nat
     \<Rightarrow> thrown + 'a option" where
  "outcomeAt W options tryBody endpoints st j =
     fst (attempt W options tryBody (endpoints ! j) (reached options endpoints st j))"

text \<open>The public operations of the client, to speak of all of them at once.\<close>

datatype ClientOp =
    GetEventRuns string
  | GetFunctionRuns string "int option"
  | GetRunDetails string
  | GetRunSteps string
  | CancelRun string
  | BulkCancelRuns BulkCancelParams
  | ReplayRun string
  | SendEvent string Json

fun stateAfter :: "World \<Rightarrow> ClientOp \<Rightarrow> Client \<Rightarrow> Client" where
  "stateAfter W (GetEventRuns eventId) st = snd (getEventRuns W eventId st)"
| "stateAfter W (GetFunctionRuns fid limit) st = snd (getFunctionRuns W fid limit st)"
| "stateAfter W (GetRunDetails runId) st = snd (getRunDetails W runId st)"
| "stateAfter W (GetRunSteps runId) st = snd (getRunSteps W runId st)"
| "stateAfter W (CancelRun runId) st = snd (cancelRun W runId st)"
| "stateAfter W (BulkCancelRuns params) st = snd (bulkCancelRuns W params st)"
| "stateAfter W (ReplayRun runId) st = snd (replayRun W runId st)"
| "stateAfter W (SendEvent eventName payload) st = snd (sendEvent W eventName payload st)"

text \<open>
  Candidate \<open>k\<close> is the first whose \<open>try\<close> block returns a value, \<open>v\<close>; and the
  requests for a list of endpoints.
\<close>

definition firstSuccess ::
  "World \<Rightarrow> RequestInit \<Rightarrow> (Json \<Rightarrow> thrown + 'a option) \<Rightarrow> string list \<Rightarrow> Client \<Rightarrow> nat \<Rightarrow> 'a
     \<Rightarrow> bool" where
  "firstSuccess W options tryBody endpoints st k v =
     (k < length endpoints
      \<and> outcomeAt W options tryBody endpoints st k = Inr (Some v)
      \<and> (\<forall>j<k. \<forall>u. outcomeAt W options tryBody endpoints st j \<noteq> Inr (Some u)))"

definition requestsFor :: "Client \<Rightarrow> RequestInit \<Rightarrow> string list \<Rightarrow> Request list" where
  "requestsFor st options endpoints = map (mkRequest (config st) options) endpoints"

text \<open>A request built by apiRequest for a caller that passes no headers.\<close>

definition plainRequest :: "InngestConfig \<Rightarrow> Request \<Rightarrow> bool" where
  "plainRequest c r =
     (\<exists>options endpoint. opt_headers options = None \<and> r = mkRequest c options endpoint)"

text \<open>
  What \<open>fetch\<close> answers to the request for candidate \<open>j\<close> when it is the \<open>j\<close>-th
  request of the operation, and a response that is successful at the HTTP level while
  its parsed body, an object or an array, has neither a truthy \<open>data\<close> nor a \<open>run_id\<close>.
\<close>

definition bareSuccess :: "Response \<Rightarrow> bool" where
  "bareSuccess r =
     (ok r \<and>
      (case bodyJson r of
         Inr (JObj kvs) \<Rightarrow> map_of kvs ''run_id'' = None \<and> \<not> truthy_opt (map_of kvs ''data'')
       | Inr (JArr xs) \<Rightarrow> True
       | _ \<Rightarrow> False))"

definition answerAt ::
  "World \<Rightarrow> RequestInit \<Rightarrow> string list \<Rightarrow> Client \<Rightarrow> nat \<Rightarrow> thrown + Response" where
  "answerAt W options endpoints st j =
     fetch W (length (calls st) + j) (mkRequest (config st) options (endpoints ! j))"



text \<open>
  What the platform's answer to one candidate request means, read off the answer alone.
  A rejected call, a status outside 200 to 299 and a body that does not parse are
  failures, each with its message. For cancelRun and replayRun every other answer is a
  success. For getRunDetails a parsed object with a truthy \<open>data\<close> succeeds with that
  value, an object with a \<open>run_id\<close> succeeds with the object, any other object or array
  is passed over without an error, and a primitive value fails with the TypeError of the
  \<open>in\<close> operator.
\<close>

datatype 'a Verdict = Succeeds 'a | Fails string | Skipped

fun postVerdict :: "(thrown + Response) \<Rightarrow> SuccessResult Verdict" where
  "postVerdict (Inl e) = Fails (errorMessage e)"
| "postVerdict (Inr r) =
     (if \<not> ok r
      then Fails (''Inngest API error: '' @ show_nat (status r) @ '' '' @ statusText r
                    @ '' - '' @ bodyText r)
      else case bodyJson r of
             Inl e \<Rightarrow> Fails (errorMessage e)
           | Inr v \<Rightarrow> Succeeds \<lparr> success = True \<rparr>)"

fun detailsVerdict :: "World \<Rightarrow> (thrown + Response) \<Rightarrow> Json Verdict" where
  "detailsVerdict W (Inl e) = Fails (errorMessage e)"
| "detailsVerdict W (Inr r) =
     (if \<not> ok r
      then Fails (''Inngest API error: '' @ show_nat (status r) @ '' '' @ statusText r
                    @ '' - '' @ bodyText r)
      else case bodyJson r of
             Inl e \<Rightarrow> Fails (errorMessage e)
           | Inr (JObj kvs) \<Rightarrow>
               if truthy_opt (map_of kvs ''data'') then Succeeds (the (map_of kvs ''data''))
               else if ''run_id'' \<in> set (map fst kvs) then Succeeds (JObj kvs)
               else Skipped
           | Inr (JArr xs) \<Rightarrow> Skipped
           | Inr v \<Rightarrow> Fails (inOperatorError W ''data'' v))"

text \<open>
  The message of the last failure in a list of verdicts, and what it means for the
  \<open>try\<close> block of the code to behave as a verdict says.
\<close>

fun lastFailure :: "'a Verdict list \<Rightarrow> string option" where
  "lastFailure [] = None"
| "lastFailure (v # vs) =
     (case lastFailure vs of
        Some m \<Rightarrow> Some m
      | None \<Rightarrow> (case v of Fails m \<Rightarrow> Some m | _ \<Rightarrow> None))"

fun agrees :: "'a Verdict \<Rightarrow> thrown + 'a option \<Rightarrow> bool" where
  "agrees (Succeeds v) out = (out = Inr (Some v))"
| "agrees Skipped out = (out = Inr None)"
| "agrees (Fails m) out = (\<exists>e. out = Inl e \<and> errorMessage e = m)"










section \<open>Concrete configurations, responses and platforms\<close>

text \<open>
  A platform whose \<open>fetch\<close> answers the n-th call with the n-th entry of a script and
  rejects once the script is used up, with fixed clock readings and fixed renderings.
\<close>

definition scripted :: "(thrown + Response) list \<Rightarrow> World" where
  "scripted script =
     \<lparr> fetch = (\<lambda>n req. if n < length script then script ! n else Inl (Err ''fetch failed'')),
       isoNow = (\<lambda>n. ''2024-01-01T00:00:00.000Z''),
       msNow = (\<lambda>n. 1704067200000),
       stringify = (\<lambda>v. ''{}''),
       inOperatorError = (\<lambda>k v. ''Cannot use in operator''),
       readPropError = (\<lambda>k. ''Cannot read properties of null''),
       pretty = (\<lambda>v. ''{}''),
       localeString = (\<lambda>s. s),
       dateMs = (\<lambda>s. if s = ''2024-01-01T00:00:00Z'' then Some 1704067200000
                        else if s = ''2024-01-01T00:01:30Z'' then Some 1704067290000
                        else None),
       doubleSeconds = (\<lambda>te ts. ''0'') \<rparr>"

definition cloudConfig :: InngestConfig where
  "cloudConfig = \<lparr> signingKey = ''test-key'', eventKey = None,
                   baseUrl = ''https://api.inngest.com'', env = Some ''staging'' \<rparr>"

definition localConfig :: InngestConfig where
  "localConfig = \<lparr> signingKey = ''local-dev-key'', eventKey = None,
                   baseUrl = ''http://localhost:8288'', env = None \<rparr>"

definition prodKeyLocalConfig :: InngestConfig where
  "prodKeyLocalConfig = \<lparr> signingKey = ''signkey-prod-abc123'', eventKey = None,
                          baseUrl = ''http://localhost:8288'', env = None \<rparr>"

definition jsonResponse :: "nat \<Rightarrow> string \<Rightarrow> string \<Rightarrow> Json \<Rightarrow> Response" where
  "jsonResponse code reason raw v =
     \<lparr> status = code, statusText = reason, bodyText = raw, bodyJson = Inr v \<rparr>"

definition notFound :: Response where
  "notFound = jsonResponse 404 ''Not Found'' ''{}'' (JObj [])"

definition runJson :: Json where
  "runJson = JObj [(''run_id'', JStr ''run-123''), (''status'', JStr ''Completed'')]"

definition emptyJsonOk :: Response where
  "emptyJsonOk = jsonResponse 200 ''OK'' ''{}'' (JObj [])"

definition runEnvelopeOk :: Response where
  "runEnvelopeOk = jsonResponse 200 ''OK'' ''{}'' (JObj [(''data'', runJson)])"

definition textPlainOptions :: RequestInit where
  "textPlainOptions =
     \<lparr> opt_method = Some ''POST'',
       opt_headers = Some [(''Content-Type'', ''text/plain'')],
       opt_body = None \<rparr>"



definition fixedViews :: Views where
  "fixedViews = \<lparr> asEventId = (\<lambda>v. ''event-123''),
                   untypedEventRuns = (\<lambda>eventId limit v. Inl (Err ''runs.slice is not a function'')),
                   untypedRunDetails = (\<lambda>runId v. Inl (Err ''steps.forEach is not a function'')) \<rparr>"




section \<open>Facts about objects and about one request\<close>

lemma map_of_obj_set: "map_of (obj_set k v h) = (map_of h)(k \<mapsto> v)"
  by (induction h) (auto simp: fun_eq_iff)

lemma map_of_spread: "map_of (spread base ps) = map_of base ++ map_of (rev ps)"
  by (induction ps arbitrary: base)
     (auto simp: map_of_obj_set fun_eq_iff map_add_def split: option.splits)

lemma map_of_rev_distinct: "distinct (map fst ps) \<Longrightarrow> map_of (rev ps) = map_of ps"
proof (induction ps)
  case Nil
  show ?case by simp
next
  case (Cons p ps)
  have "map_of ps (fst p) = None"
    using Cons.prems by (simp add: map_of_eq_None_iff)
  then show ?case
    using Cons by (cases p) (auto simp: fun_eq_iff map_add_def split: option.splits)
qed

lemma requestHeaders_lookup:
  assumes "distinct (map fst callerHeaders)"
  shows "map_of (requestHeaders c
                   \<lparr> opt_method = m, opt_headers = Some callerHeaders, opt_body = b \<rparr>) k =
     (if k = ''Authorization'' \<and> authRequired c then Some (''Bearer '' @ signingKey c)
      else if k = ''X-Inngest-Env'' \<and> truthy_str (env c) then env c
      else case map_of callerHeaders k of
             Some v \<Rightarrow> Some v
           | None \<Rightarrow> if k = ''Content-Type'' then Some ''application/json'' else None)"
  using assms
  by (cases "env c")
     (auto simp: requestHeaders_def Let_def map_of_obj_set map_of_spread map_of_rev_distinct
                 map_add_def split: option.splits)

lemma requestHeaders_plain:
  assumes "opt_headers options = None"
  shows "map_of (requestHeaders c options) k =
     (if k = ''Authorization'' \<and> authRequired c then Some (''Bearer '' @ signingKey c)
      else if k = ''X-Inngest-Env'' \<and> truthy_str (env c) then env c
      else if k = ''Content-Type'' then Some ''application/json'' else None)"
  using assms
  by (cases "env c") (auto simp: requestHeaders_def Let_def map_of_obj_set)

lemma apiRequest_calls:
  "calls (snd (apiRequest W endpoint options st)) =
     calls st @ [mkRequest (config st) options endpoint]"
  by (simp add: apiRequest_def Let_def split: sum.splits)

lemma apiRequest_config: "config (snd (apiRequest W endpoint options st)) = config st"
  by (simp add: apiRequest_def Let_def split: sum.splits)

lemma show_nat_404: "show_nat 404 = ''404''"
  by code_simp

lemma localConfig_isLocal: "isLocal localConfig"
  by (simp add: isLocal_def localConfig_def)

lemma cloudConfig_not_local: "\<not> isLocal cloudConfig"
  by (simp add: isLocal_def cloudConfig_def)

section \<open>Properties of the generic request operation\<close>

text \<open>
  Claim C5. When \<open>fetch\<close> resolves with a response: if the response is not ok, apiRequest
  throws an Error whose message is made of the numeric status, the status text and the
  raw body text, and the last-response snapshot stays as it was; if the response is ok
  and its body parses as JSON to \<open>v\<close>, apiRequest returns \<open>v\<close> and records the snapshot
  of URL, status, \<open>v\<close> and the current time.
\<close>

theorem apiRequest_outcome:
  assumes "fetch W (length (calls st)) (mkRequest (config st) options endpoint) = Inr response"
  shows "(\<not> ok response \<longrightarrow>
            fst (apiRequest W endpoint options st) =
              Inl (Err (''Inngest API error: '' @ show_nat (status response) @ '' ''
                          @ statusText response @ '' - '' @ bodyText response))
          \<and> lastResponse (snd (apiRequest W endpoint options st)) = lastResponse st)
       \<and> (ok response \<and> bodyJson response = Inr v \<longrightarrow>
            fst (apiRequest W endpoint options st) = Inr v
          \<and> lastResponse (snd (apiRequest W endpoint options st)) =
              Some \<lparr> resp_url = baseUrl (config st) @ endpoint,
                     resp_status = status response,
                     resp_data = v,
                     resp_timestamp = isoNow W (Suc (length (calls st))) \<rparr>)"
  using assms by (simp add: apiRequest_def Let_def apiErrorMessage_def mkRequest_def)

theorem apiRequest_outcome_witness:
  "fst (apiRequest (scripted [Inr notFound]) ''/v1/events'' noOptions (newClient cloudConfig))
     = Inl (Err ''Inngest API error: 404 Not Found - {}'')
   \<and> lastResponse (snd (apiRequest (scripted [Inr notFound]) ''/v1/events'' noOptions
                          (newClient cloudConfig))) = None
   \<and> fst (apiRequest (scripted [Inr emptyJsonOk]) ''/v1/events'' noOptions (newClient cloudConfig))
     = Inr (JObj [])
   \<and> lastResponse (snd (apiRequest (scripted [Inr emptyJsonOk]) ''/v1/events'' noOptions
                          (newClient cloudConfig)))
     = Some \<lparr> resp_url = ''https://api.inngest.com/v1/events'', resp_status = 200,
              resp_data = JObj [], resp_timestamp = ''2024-01-01T00:00:00.000Z'' \<rparr>"
  using apiRequest_outcome [of "scripted [Inr notFound]" "newClient cloudConfig" noOptions
          "''/v1/events''" notFound]
        apiRequest_outcome [of "scripted [Inr emptyJsonOk]" "newClient cloudConfig" noOptions
          "''/v1/events''" emptyJsonOk "JObj []"]
  by (simp add: scripted_def newClient_def cloudConfig_def notFound_def emptyJsonOk_def
        jsonResponse_def ok_def show_nat_404)

text \<open>
  Claim C6, as the code has it. The claim says a caller-supplied header never replaces
  the default Content-Type. The code spreads the caller's headers over the default, so
  a caller-supplied Content-Type is the one sent.
\<close>

theorem caller_content_type_counterexample:
  "map_of (headers (last (calls (snd (apiRequest (scripted [Inr emptyJsonOk]) ''/v1/events''
       textPlainOptions (newClient cloudConfig)))))) ''Content-Type'' = Some ''text/plain''"
  by (simp add: apiRequest_calls mkRequest_def requestHeaders_def textPlainOptions_def
        newClient_def cloudConfig_def authRequired_def Let_def)

text \<open>
  Claim C6, amended. apiRequest issues one request. Its headers are the caller-supplied
  headers, over which the computed headers win: Authorization when the auth rule holds
  and X-Inngest-Env when the environment tag is set. The default Content-Type
  application/json is sent only when the caller supplies no Content-Type of their own;
  a header nobody supplies is absent.
\<close>

theorem apiRequest_headers:
  assumes "distinct (map fst callerHeaders)"
      and "opt_headers options = Some callerHeaders"
  shows "\<exists>req. calls (snd (apiRequest W endpoint options st)) = calls st @ [req]
      \<and> (\<forall>k. map_of (headers req) k =
           (if k = ''Authorization'' \<and> signingKey (config st) \<noteq> []
                 \<and> signingKey (config st) \<noteq> ''local-dev-key''
                 \<and> \<not> str_includes (baseUrl (config st)) ''localhost''
                 \<and> \<not> str_includes (baseUrl (config st)) ''127.0.0.1''
            then Some (''Bearer '' @ signingKey (config st))
            else if k = ''X-Inngest-Env'' \<and> truthy_str (env (config st)) then env (config st)
            else case map_of callerHeaders k of
                   Some v \<Rightarrow> Some v
                 | None \<Rightarrow> if k = ''Content-Type'' then Some ''application/json'' else None))"
proof -
  obtain m b where o:
    "options = \<lparr> opt_method = m, opt_headers = Some callerHeaders, opt_body = b \<rparr>"
    using assms(2) by (cases options) simp
  show ?thesis
    unfolding apiRequest_calls o
    using requestHeaders_lookup [OF assms(1), of "config st" m b]
    by (simp add: mkRequest_def authRequired_def)
qed

theorem apiRequest_headers_witness:
  "distinct (map fst [(''Accept'', ''text/html'')])
   \<and> (\<exists>req. calls (snd (apiRequest (scripted []) ''/v1/events''
                \<lparr> opt_method = None, opt_headers = Some [(''Accept'', ''text/html'')],
                  opt_body = None \<rparr> (newClient cloudConfig))) = [req]
          \<and> map_of (headers req) ''Content-Type'' = Some ''application/json''
          \<and> map_of (headers req) ''Accept'' = Some ''text/html''
          \<and> map_of (headers req) ''Authorization'' = Some ''Bearer test-key''
          \<and> map_of (headers req) ''X-Inngest-Env'' = Some ''staging'')"
proof -
  have d: "distinct (map fst [(''Accept'', ''text/html'')])"
    by simp
  have o: "opt_headers \<lparr> opt_method = None, opt_headers = Some [(''Accept'', ''text/html'')],
                         opt_body = None \<rparr> = Some [(''Accept'', ''text/html'')]"
    by simp
  from apiRequest_headers [OF d o, of "scripted []" "''/v1/events''" "newClient cloudConfig"]
  obtain req where c:
    "calls (snd (apiRequest (scripted []) ''/v1/events''
                \<lparr> opt_method = None, opt_headers = Some [(''Accept'', ''text/html'')],
                  opt_body = None \<rparr> (newClient cloudConfig)))
       = calls (newClient cloudConfig) @ [req]"
    and h: "\<forall>k. map_of (headers req) k =
           (if k = ''Authorization'' \<and> signingKey (config (newClient cloudConfig)) \<noteq> []
                 \<and> signingKey (config (newClient cloudConfig)) \<noteq> ''local-dev-key''
                 \<and> \<not> str_includes (baseUrl (config (newClient cloudConfig))) ''localhost''
                 \<and> \<not> str_includes (baseUrl (config (newClient cloudConfig))) ''127.0.0.1''
            then Some (''Bearer '' @ signingKey (config (newClient cloudConfig)))
            else if k = ''X-Inngest-Env'' \<and> truthy_str (env (config (newClient cloudConfig)))
            then env (config (newClient cloudConfig))
            else case map_of [(''Accept'', ''text/html'')] k of
                   Some v \<Rightarrow> Some v
                 | None \<Rightarrow> if k = ''Content-Type'' then Some ''application/json'' else None)"
    by blast
  have "map_of (headers req) ''Content-Type'' = Some ''application/json''"
       "map_of (headers req) ''Accept'' = Some ''text/html''"
       "map_of (headers req) ''Authorization'' = Some ''Bearer test-key''"
       "map_of (headers req) ''X-Inngest-Env'' = Some ''staging''"
    by (simp_all add: h newClient_def cloudConfig_def)
  then show ?thesis
    using d c by (simp add: newClient_def)
qed

section \<open>Local mode\<close>

text \<open>
  Claim C4. When the base URL contains "localhost" or "127.0.0.1", getRunDetails,
  cancelRun and replayRun each throw an Error whose fixed message contains
  "not available in development mode", for every run ID, and leave the client as it
  was: no request is added to the log of calls.
\<close>

theorem local_mode_rejects:
  assumes "isLocal (config st)"
  shows "(\<exists>m. getRunDetails W runId st = (Inl (Err m), st)
              \<and> str_includes m ''not available in development mode'')
       \<and> (\<exists>m. cancelRun W runId st = (Inl (Err m), st)
              \<and> str_includes m ''not available in development mode'')
       \<and> (\<exists>m. replayRun W runId st = (Inl (Err m), st)
              \<and> str_includes m ''not available in development mode'')"
  using assms by (simp add: getRunDetails_def cancelRun_def replayRun_def)

theorem local_mode_rejects_witness:
  "isLocal (config (newClient localConfig))
   \<and> fst (getRunDetails (scripted []) ''run-123'' (newClient localConfig))
       = Inl (Err ''Run details not available in development mode. Please use Inngest Cloud for run management features.'')
   \<and> calls (snd (getRunDetails (scripted []) ''run-123'' (newClient localConfig))) = []
   \<and> calls (snd (cancelRun (scripted []) ''run-123'' (newClient localConfig))) = []
   \<and> calls (snd (replayRun (scripted []) ''run-123'' (newClient localConfig))) = []"
proof -
  have h: "isLocal (config (newClient localConfig))"
    by (simp add: newClient_def localConfig_isLocal)
  from local_mode_rejects [OF h, of "scripted []" "''run-123''"]
  show ?thesis using h by (auto simp: newClient_def getRunDetails_def)
qed

section \<open>The candidate loop\<close>

lemma apiRequest_lastError: "lastError (snd (apiRequest W endpoint options st)) = lastError st"
  by (simp add: apiRequest_def Let_def split: sum.splits)

lemma apiRequest_fst_cong:
  "config s = config s' \<Longrightarrow> length (calls s) = length (calls s') \<Longrightarrow>
   fst (apiRequest W endpoint options s) = fst (apiRequest W endpoint options s')"
  by (simp add: apiRequest_def Let_def split: sum.splits)

lemma attempt_calls:
  "calls (snd (attempt W options tryBody endpoint st)) =
     calls st @ [mkRequest (config st) options endpoint]"
  using apiRequest_calls [of W endpoint options st]
  by (auto simp: attempt_def split: prod.splits sum.splits)

lemma attempt_config: "config (snd (attempt W options tryBody endpoint st)) = config st"
  using apiRequest_config [of W endpoint options st]
  by (auto simp: attempt_def split: prod.splits sum.splits)

lemma attempt_lastError: "lastError (snd (attempt W options tryBody endpoint st)) = lastError st"
  using apiRequest_lastError [of W endpoint options st]
  by (auto simp: attempt_def split: prod.splits sum.splits)

lemma attempt_fst_cong:
  assumes "config s = config s'" and "length (calls s) = length (calls s')"
  shows "fst (attempt W options tryBody endpoint s) = fst (attempt W options tryBody endpoint s')"
  using apiRequest_fst_cong [OF assms, of W endpoint options]
  by (auto simp: attempt_def split: prod.splits sum.splits)

lemma outcomeAt_0:
  "outcomeAt W options tryBody (ep # rest) st 0 = fst (attempt W options tryBody ep st)"
  by (simp add: outcomeAt_def reached_def)

lemma outcomeAt_Suc:
  assumes "config st1 = config st"
      and "calls st1 = calls st @ [mkRequest (config st) options ep]"
  shows "outcomeAt W options tryBody (ep # rest) st (Suc j) = outcomeAt W options tryBody rest st1 j"
  unfolding outcomeAt_def nth_Cons_Suc
  by (rule attempt_fst_cong) (simp_all add: reached_def assms)

text \<open>One step of the loop, by the outcome of the attempt.\<close>

lemma tryEndpoints_step:
  "tryEndpoints W options tryBody (ep # rest) lastErr st =
     (case fst (attempt W options tryBody ep st) of
        Inr (Some v) \<Rightarrow> (Inr v, snd (attempt W options tryBody ep st))
      | Inr None \<Rightarrow> tryEndpoints W options tryBody rest lastErr (snd (attempt W options tryBody ep st))
      | Inl e \<Rightarrow>
          tryEndpoints W options tryBody rest (Some (errorMessage e))
            ((snd (attempt W options tryBody ep st))
               \<lparr>lastError := Some \<lparr> message = errorMessage e,
                    err_timestamp = isoNow W (length (calls (snd (attempt W options tryBody ep st)))) \<rparr>\<rparr>))"
  by (simp split: prod.splits sum.splits option.splits)

lemma tryEndpoints_config:
  "config (snd (tryEndpoints W options tryBody eps lastErr st)) = config st"
proof (induction eps arbitrary: lastErr st)
  case Nil
  show ?case by simp
next
  case (Cons ep rest)
  show ?case
    unfolding tryEndpoints_step
    by (simp add: Cons.IH attempt_config split: sum.splits option.splits)
qed

lemma tryEndpoints_first_success:
  assumes "k < length eps"
      and "outcomeAt W options tryBody eps st k = Inr (Some v)"
      and "\<forall>j<k. \<forall>u. outcomeAt W options tryBody eps st j \<noteq> Inr (Some u)"
  shows "fst (tryEndpoints W options tryBody eps lastErr st) = Inr v
       \<and> calls (snd (tryEndpoints W options tryBody eps lastErr st)) =
           calls st @ map (mkRequest (config st) options) (take (Suc k) eps)"
  using assms
proof (induction eps arbitrary: k lastErr st)
  case Nil
  then show ?case by simp
next
  case (Cons ep rest)
  let ?a = "attempt W options tryBody ep st"
  show ?case
  proof (cases k)
    case 0
    with Cons.prems(2) have "fst ?a = Inr (Some v)"
      by (simp add: outcomeAt_0)
    then show ?thesis
      unfolding tryEndpoints_step using 0 by (simp add: attempt_calls)
  next
    case (Suc k')
    have nosucc: "\<forall>u. fst ?a \<noteq> Inr (Some u)"
      using Cons.prems(3) Suc by (auto simp: outcomeAt_0 dest: spec [of _ 0])
    have step: "\<And>st1::Client. config st1 = config st \<Longrightarrow>
                 calls st1 = calls st @ [mkRequest (config st) options ep] \<Longrightarrow>
             fst (tryEndpoints W options tryBody rest le st1) = Inr v
           \<and> calls (snd (tryEndpoints W options tryBody rest le st1)) =
               calls st @ map (mkRequest (config st) options) (take (Suc k) (ep # rest))" for le
    proof -
      fix st1 :: Client assume c: "config st1 = config st"
        and l: "calls st1 = calls st @ [mkRequest (config st) options ep]"
      have a: "k' < length rest" using Cons.prems(1) Suc by simp
      have b: "outcomeAt W options tryBody rest st1 k' = Inr (Some v)"
        using Cons.prems(2) Suc outcomeAt_Suc [OF c l, of W tryBody rest k'] by simp
      have d: "\<forall>j<k'. \<forall>u. outcomeAt W options tryBody rest st1 j \<noteq> Inr (Some u)"
        using Cons.prems(3) Suc outcomeAt_Suc [OF c l, of W tryBody rest] by auto
      from Cons.IH [OF a b d, of le]
      show "fst (tryEndpoints W options tryBody rest le st1) = Inr v
           \<and> calls (snd (tryEndpoints W options tryBody rest le st1)) =
               calls st @ map (mkRequest (config st) options) (take (Suc k) (ep # rest))"
        using Suc c l by simp
    qed
    show ?thesis
    proof (cases "fst ?a")
      case (Inl e)
      then show ?thesis
        unfolding tryEndpoints_step
        using step [of "(snd ?a)\<lparr>lastError := Some \<lparr> message = errorMessage e,
                    err_timestamp = isoNow W (length (calls (snd ?a))) \<rparr>\<rparr>" "Some (errorMessage e)"]
        by (simp add: attempt_config attempt_calls)
    next
      case (Inr r)
      with nosucc have "r = None" by (cases r) auto
      with Inr show ?thesis
        unfolding tryEndpoints_step
        using step [of "snd ?a" lastErr]
        by (simp add: attempt_config attempt_calls)
    qed
  qed
qed

lemma tryEndpoints_step_no_success:
  assumes "\<forall>u. fst (attempt W options tryBody ep st) \<noteq> Inr (Some u)"
  obtains st1 :: Client and le1 where
    "config st1 = config st"
    "calls st1 = calls st @ [mkRequest (config st) options ep]"
    "tryEndpoints W options tryBody (ep # rest) lastErr st =
       tryEndpoints W options tryBody rest le1 st1"
    "fst (attempt W options tryBody ep st) = Inr None \<longrightarrow>
       le1 = lastErr \<and> lastError st1 = lastError st"
    "\<forall>e. fst (attempt W options tryBody ep st) = Inl e \<longrightarrow> le1 = Some (errorMessage e)"
proof (cases "fst (attempt W options tryBody ep st)")
  case (Inl e)
  let ?a = "attempt W options tryBody ep st"
  show ?thesis
    using Inl
    by (intro that [of "(snd ?a)\<lparr>lastError := Some \<lparr> message = errorMessage e,
                    err_timestamp = isoNow W (length (calls (snd ?a))) \<rparr>\<rparr>" "Some (errorMessage e)"])
       (simp_all add: attempt_config attempt_calls tryEndpoints_step del: tryEndpoints.simps)
next
  case (Inr r)
  with assms have "r = None" by (cases r) auto
  with Inr show ?thesis
    by (intro that [of "snd (attempt W options tryBody ep st)" lastErr])
       (simp_all add: attempt_config attempt_calls attempt_lastError tryEndpoints_step
          del: tryEndpoints.simps)
qed

lemma tryEndpoints_no_success:
  assumes "\<forall>j<length eps. \<forall>u. outcomeAt W options tryBody eps st j \<noteq> Inr (Some u)"
  shows "calls (snd (tryEndpoints W options tryBody eps lastErr st)) =
           calls st @ map (mkRequest (config st) options) eps
       \<and> (\<exists>le. fst (tryEndpoints W options tryBody eps lastErr st) = Inl le)"
  using assms
proof (induction eps arbitrary: lastErr st)
  case Nil
  show ?case by simp
next
  case (Cons ep rest)
  have "\<forall>u. fst (attempt W options tryBody ep st) \<noteq> Inr (Some u)"
    using Cons.prems by (auto simp: outcomeAt_0 dest: spec [of _ 0])
  then obtain st1 :: Client and le1 where
    c: "config st1 = config st"
    and l: "calls st1 = calls st @ [mkRequest (config st) options ep]"
    and t: "tryEndpoints W options tryBody (ep # rest) lastErr st =
              tryEndpoints W options tryBody rest le1 st1"
    by (rule tryEndpoints_step_no_success)
  have "\<forall>j<length rest. \<forall>u. outcomeAt W options tryBody rest st1 j \<noteq> Inr (Some u)"
    using Cons.prems outcomeAt_Suc [OF c l, of W tryBody rest] by auto
  from Cons.IH [OF this, of le1] show ?case
    unfolding t by (simp add: c l)
qed

lemma tryEndpoints_fall_through:
  assumes "\<forall>j<length eps. outcomeAt W options tryBody eps st j = Inr None"
  shows "fst (tryEndpoints W options tryBody eps lastErr st) = Inl lastErr
       \<and> lastError (snd (tryEndpoints W options tryBody eps lastErr st)) = lastError st"
  using assms
proof (induction eps arbitrary: st)
  case Nil
  show ?case by simp
next
  case (Cons ep rest)
  have n: "fst (attempt W options tryBody ep st) = Inr None"
    using Cons.prems by (auto simp: outcomeAt_0 dest: spec [of _ 0])
  then have "\<forall>u. fst (attempt W options tryBody ep st) \<noteq> Inr (Some u)"
    by simp
  then obtain st1 :: Client and le1 where
    c: "config st1 = config st"
    and l: "calls st1 = calls st @ [mkRequest (config st) options ep]"
    and t: "tryEndpoints W options tryBody (ep # rest) lastErr st =
              tryEndpoints W options tryBody rest le1 st1"
    and k: "fst (attempt W options tryBody ep st) = Inr None \<longrightarrow>
              le1 = lastErr \<and> lastError st1 = lastError st"
    by (rule tryEndpoints_step_no_success)
  have "\<forall>j<length rest. outcomeAt W options tryBody rest st1 j = Inr None"
    using Cons.prems outcomeAt_Suc [OF c l, of W tryBody rest] by auto
  from Cons.IH [OF this] show ?case
    unfolding t using k n by simp
qed

lemma tryEndpoints_requests:
  "\<exists>k\<le>length eps. calls (snd (tryEndpoints W options tryBody eps lastErr st)) =
      calls st @ map (mkRequest (config st) options) (take k eps)"
proof (induction eps arbitrary: lastErr st)
  case Nil
  show ?case by simp
next
  case (Cons ep rest)
  let ?a = "attempt W options tryBody ep st"
  have rec: "\<exists>k\<le>length (ep # rest). calls (snd (tryEndpoints W options tryBody rest le st1)) =
      calls st @ map (mkRequest (config st) options) (take k (ep # rest))"
    if "config st1 = config st" "calls st1 = calls st @ [mkRequest (config st) options ep]"
    for st1 :: Client and le
  proof -
    from Cons.IH [of le st1] obtain k where "k \<le> length rest"
      "calls (snd (tryEndpoints W options tryBody rest le st1)) =
         calls st1 @ map (mkRequest (config st1) options) (take k rest)"
      by blast
    then show ?thesis
      using that by (intro exI [of _ "Suc k"]) simp
  qed
  show ?case
  proof (cases "fst ?a")
    case (Inl e)
    then show ?thesis
      unfolding tryEndpoints_step
      using rec [of "(snd ?a)\<lparr>lastError := Some \<lparr> message = errorMessage e,
                    err_timestamp = isoNow W (length (calls (snd ?a))) \<rparr>\<rparr>" "Some (errorMessage e)"]
      by (simp add: attempt_config attempt_calls)
  next
    case (Inr r)
    show ?thesis
    proof (cases r)
      case None
      with Inr show ?thesis
        unfolding tryEndpoints_step
        using rec [of "snd ?a" lastErr] by (simp add: attempt_config attempt_calls)
    next
      case (Some v)
      with Inr show ?thesis
        unfolding tryEndpoints_step
        by (intro exI [of _ 1]) (simp add: attempt_calls)
    qed
  qed
qed

lemma loop_first_success:
  assumes "firstSuccess W options tryBody eps st k v"
  shows "fst (tryEndpoints W options tryBody eps None st) = Inr v
       \<and> issued st (snd (tryEndpoints W options tryBody eps None st)) =
           requestsFor st options (take (Suc k) eps)"
  using assms tryEndpoints_first_success [of k eps W options tryBody st v None]
  by (simp add: firstSuccess_def issued_def requestsFor_def)

lemma getRunDetails_cloud:
  assumes "\<not> isLocal (config st)"
  shows "fst (getRunDetails W runId st) =
           (case fst (tryEndpoints W noOptions (runDetailsBody W) (runDetailsEndpoints runId) None st) of
              Inr run \<Rightarrow> Inr run
            | Inl lastErr \<Rightarrow>
                Inl (Err (''Failed to get run details for '' @ runId @ ''. Last error: ''
                            @ lastErrorText lastErr)))"
    and "snd (getRunDetails W runId st) =
           snd (tryEndpoints W noOptions (runDetailsBody W) (runDetailsEndpoints runId) None st)"
  using assms by (simp_all add: getRunDetails_def split: prod.splits sum.splits)

lemma cancelRun_cloud:
  assumes "\<not> isLocal (config st)"
  shows "fst (cancelRun W runId st) =
           (case fst (tryEndpoints W postOptions successBody (cancelEndpoints runId) None st) of
              Inr r \<Rightarrow> Inr r
            | Inl lastErr \<Rightarrow>
                Inl (Err (''Failed to cancel run '' @ runId @ ''. Last error: ''
                            @ lastErrorText lastErr)))"
    and "snd (cancelRun W runId st) =
           snd (tryEndpoints W postOptions successBody (cancelEndpoints runId) None st)"
  using assms by (simp_all add: cancelRun_def split: prod.splits sum.splits)

lemma replayRun_cloud:
  assumes "\<not> isLocal (config st)"
  shows "fst (replayRun W runId st) =
           (case fst (tryEndpoints W postOptions successBody (replayEndpoints runId) None st) of
              Inr r \<Rightarrow> Inr r
            | Inl lastErr \<Rightarrow>
                Inl (Err (''Failed to replay run '' @ runId @ ''. Last error: ''
                            @ lastErrorText lastErr)))"
    and "snd (replayRun W runId st) =
           snd (tryEndpoints W postOptions successBody (replayEndpoints runId) None st)"
  using assms by (simp_all add: replayRun_def split: prod.splits sum.splits)

text \<open>Unfolding the concrete platform, configuration and responses.\<close>

lemmas fixture_defs = scripted_def newClient_def cloudConfig_def notFound_def emptyJsonOk_def
  runEnvelopeOk_def runJson_def jsonResponse_def ok_def

lemma outcomeAt_answer:
  assumes "j < length eps"
  shows "outcomeAt W options tryBody eps st j =
     (case answerAt W options eps st j of
        Inl e \<Rightarrow> Inl e
      | Inr r \<Rightarrow>
          if \<not> ok r then Inl (Err (apiErrorMessage r))
          else (case bodyJson r of Inl e \<Rightarrow> Inl e | Inr v \<Rightarrow> tryBody v))"
proof -
  have l: "length (calls (reached options eps st j)) = length (calls st) + j"
    using assms by (simp add: reached_def)
  have c: "config (reached options eps st j) = config st"
    by (simp add: reached_def)
  show ?thesis
    by (simp add: outcomeAt_def attempt_def apiRequest_def Let_def l c answerAt_def
          split: sum.splits)
qed

lemma post_agrees:
  assumes "j < length eps"
  shows "agrees (postVerdict (answerAt W options eps st j))
           (outcomeAt W options successBody eps st j)"
  unfolding outcomeAt_answer [OF assms]
  by (cases "answerAt W options eps st j")
     (auto simp: successBody_def apiErrorMessage_def split: sum.splits)

lemma runDetailsBody_agrees:
  "agrees (case v of
             JObj kvs \<Rightarrow>
               if truthy_opt (map_of kvs ''data'') then Succeeds (the (map_of kvs ''data''))
               else if ''run_id'' \<in> set (map fst kvs) then Succeeds (JObj kvs)
               else Skipped
           | JArr xs \<Rightarrow> Skipped
           | _ \<Rightarrow> Fails (inOperatorError W ''data'' v))
          (runDetailsBody W v)"
proof (cases v)
  case (JObj kvs)
  have "(''run_id'' \<in> set (map fst kvs)) = (map_of kvs ''run_id'' \<noteq> None)"
    by (simp add: map_of_eq_None_iff)
  then show ?thesis
    using JObj by (cases "map_of kvs ''data''") auto
qed auto

lemma details_agrees:
  assumes "j < length eps"
  shows "agrees (detailsVerdict W (answerAt W options eps st j))
           (outcomeAt W options (runDetailsBody W) eps st j)"
proof (cases "answerAt W options eps st j")
  case (Inl e)
  then show ?thesis
    unfolding outcomeAt_answer [OF assms] by simp
next
  case (Inr r)
  show ?thesis
  proof (cases "ok r")
    case False
    with Inr show ?thesis
      unfolding outcomeAt_answer [OF assms] by (simp add: apiErrorMessage_def)
  next
    case True
    show ?thesis
    proof (cases "bodyJson r")
      case (Inl e)
      with Inr True show ?thesis
        unfolding outcomeAt_answer [OF assms] by simp
    next
      case body: (Inr v)
      have "detailsVerdict W (answerAt W options eps st j) =
             (case v of
             JObj kvs \<Rightarrow>
               if truthy_opt (map_of kvs ''data'') then Succeeds (the (map_of kvs ''data''))
               else if ''run_id'' \<in> set (map fst kvs) then Succeeds (JObj kvs)
               else Skipped
           | JArr xs \<Rightarrow> Skipped
           | _ \<Rightarrow> Fails (inOperatorError W ''data'' v))"
        using Inr True body by (cases v) simp_all
      moreover have "outcomeAt W options (runDetailsBody W) eps st j = runDetailsBody W v"
        unfolding outcomeAt_answer [OF assms] using Inr True body by simp
      ultimately show ?thesis
        using runDetailsBody_agrees [where v = v and W = W] by simp
    qed
  qed
qed

lemma agrees_not_success:
  assumes "agrees v out" and "\<forall>u. v \<noteq> Succeeds u"
  shows "\<forall>u. out \<noteq> Inr (Some u)"
  using assms by (cases v) auto

lemma tryEndpoints_exhausted:
  assumes "\<forall>j<length eps. agrees (vf j) (outcomeAt W options tryBody eps st j)"
      and "\<forall>j<length eps. \<forall>u. vf j \<noteq> Succeeds u"
  shows "fst (tryEndpoints W options tryBody eps lastErr st) =
           Inl (case lastFailure (map vf [0..<length eps]) of
                  Some m \<Rightarrow> Some m
                | None \<Rightarrow> lastErr)"
  using assms
proof (induction eps arbitrary: vf lastErr st)
  case Nil
  show ?case by simp
next
  case (Cons ep rest)
  have a0: "agrees (vf 0) (fst (attempt W options tryBody ep st))"
    using Cons.prems(1) by (auto simp: outcomeAt_0 dest: spec [of _ 0])
  have n0: "\<forall>u. vf 0 \<noteq> Succeeds u"
    using Cons.prems(2) by auto
  have "\<forall>u. fst (attempt W options tryBody ep st) \<noteq> Inr (Some u)"
    using agrees_not_success [OF a0 n0] .
  then obtain st1 :: Client and le1 where
    c: "config st1 = config st"
    and l: "calls st1 = calls st @ [mkRequest (config st) options ep]"
    and t: "tryEndpoints W options tryBody (ep # rest) lastErr st =
              tryEndpoints W options tryBody rest le1 st1"
    and k: "fst (attempt W options tryBody ep st) = Inr None \<longrightarrow>
              le1 = lastErr \<and> lastError st1 = lastError st"
    and e: "\<forall>e. fst (attempt W options tryBody ep st) = Inl e \<longrightarrow> le1 = Some (errorMessage e)"
    by (rule tryEndpoints_step_no_success)
  have le1: "le1 = (case vf 0 of Fails m \<Rightarrow> Some m | _ \<Rightarrow> lastErr)"
    using a0 n0 k e by (cases "vf 0") auto
  let ?vf = "\<lambda>j. vf (Suc j)"
  have a: "\<forall>j<length rest. agrees (?vf j) (outcomeAt W options tryBody rest st1 j)"
    using Cons.prems(1) outcomeAt_Suc [OF c l, of W tryBody rest] by auto
  have b: "\<forall>j<length rest. \<forall>u. ?vf j \<noteq> Succeeds u"
    using Cons.prems(2) by auto
  have m: "map vf [0..<length (ep # rest)] = vf 0 # map ?vf [0..<length rest]"
    by (simp add: upt_rec [of 0] map_Suc_upt [symmetric] comp_def del: upt_Suc)
  show ?case
    unfolding t m using Cons.IH [of ?vf st1 le1, OF a b] le1
    by (simp split: option.splits Verdict.splits)
qed

lemma first_success_from_verdicts:
  assumes "k < length eps"
      and "\<forall>j<length eps. agrees (vf j) (outcomeAt W options tryBody eps st j)"
      and "vf k = Succeeds v"
      and "\<forall>j<k. \<forall>u. vf j \<noteq> Succeeds u"
  shows "firstSuccess W options tryBody eps st k v"
proof -
  have "outcomeAt W options tryBody eps st k = Inr (Some v)"
    using assms(1-3) by (auto dest!: spec [of _ k])
  moreover have "\<forall>j<k. \<forall>u. outcomeAt W options tryBody eps st j \<noteq> Inr (Some u)"
  proof (intro allI impI)
    fix j u assume "j < k"
    then have "agrees (vf j) (outcomeAt W options tryBody eps st j)" "\<forall>u. vf j \<noteq> Succeeds u"
      using assms by auto
    then show "outcomeAt W options tryBody eps st j \<noteq> Inr (Some u)"
      using agrees_not_success by blast
  qed
  ultimately show ?thesis
    using assms(1) by (simp add: firstSuccess_def)
qed

lemma loop_by_verdicts:
  assumes "\<forall>j<length eps. agrees (vf j) (outcomeAt W options tryBody eps st j)"
  shows "(k < length eps \<and> vf k = Succeeds v \<and> (\<forall>j<k. \<forall>u. vf j \<noteq> Succeeds u) \<longrightarrow>
            fst (tryEndpoints W options tryBody eps None st) = Inr v
          \<and> issued st (snd (tryEndpoints W options tryBody eps None st)) =
              requestsFor st options (take (Suc k) eps))
       \<and> ((\<forall>j<length eps. \<forall>u. vf j \<noteq> Succeeds u) \<longrightarrow>
            fst (tryEndpoints W options tryBody eps None st) =
              Inl (lastFailure (map vf [0..<length eps]))
          \<and> issued st (snd (tryEndpoints W options tryBody eps None st)) =
              requestsFor st options eps)"
proof (intro conjI impI)
  assume h: "k < length eps \<and> vf k = Succeeds v \<and> (\<forall>j<k. \<forall>u. vf j \<noteq> Succeeds u)"
  then have "firstSuccess W options tryBody eps st k v"
    using first_success_from_verdicts [OF _ assms, of k v] by blast
  from loop_first_success [OF this]
  show "fst (tryEndpoints W options tryBody eps None st) = Inr v"
    and "issued st (snd (tryEndpoints W options tryBody eps None st)) =
              requestsFor st options (take (Suc k) eps)"
    by simp_all
next
  assume h: "\<forall>j<length eps. \<forall>u. vf j \<noteq> Succeeds u"
  from tryEndpoints_exhausted [OF assms h, of None]
  show "fst (tryEndpoints W options tryBody eps None st) =
              Inl (lastFailure (map vf [0..<length eps]))"
    by (simp split: option.splits)
  have "\<forall>j<length eps. \<forall>u. outcomeAt W options tryBody eps st j \<noteq> Inr (Some u)"
    using assms h agrees_not_success by blast
  from tryEndpoints_no_success [OF this, of None]
  show "issued st (snd (tryEndpoints W options tryBody eps None st)) =
              requestsFor st options eps"
    by (simp add: issued_def requestsFor_def)
qed

lemma lastErrorText_cases:
  "lastErrorText le =
     (case le of None \<Rightarrow> ''Unknown error''
      | Some m \<Rightarrow> if m = [] then ''Unknown error'' else m)"
  by (cases le) simp_all

text \<open>
  Claim C3. On a base URL that is not local, getRunDetails, cancelRun and replayRun try
  their candidate paths strictly in list order, and the platform's answers decide the
  outcome. If candidate \<open>k\<close> is the first whose answer is a success, the operation
  returns that candidate's result and has issued exactly the requests for the first
  \<open>k + 1\<close> paths, in order: three calls when only the third succeeds. If no
  candidate's answer is a success, the operation throws the aggregate Error whose message
  ends with the message of the last failure ("Unknown error" when nothing failed or the
  message is empty), after one request per path.
\<close>

theorem candidate_paths_in_order:
  assumes "\<not> isLocal (config st)"
      and "get = \<lparr> opt_method = None, opt_headers = None, opt_body = None \<rparr>"
      and "post = \<lparr> opt_method = Some ''POST'', opt_headers = None, opt_body = None \<rparr>"
      and "detailsPaths = [''/v0/runs/'' @ runId, ''/v1/runs/'' @ runId, ''/runs/'' @ runId]"
      and "cancelPaths =
             [''/v0/runs/'' @ runId @ ''/cancel'', ''/v1/runs/'' @ runId @ ''/cancel'',
              ''/runs/'' @ runId @ ''/cancel'']"
      and "replayPaths =
             [''/v0/runs/'' @ runId @ ''/replay'', ''/v1/runs/'' @ runId @ ''/replay'',
              ''/runs/'' @ runId @ ''/replay'',
              ''/v0/runs/'' @ runId @ ''/retry'', ''/v1/runs/'' @ runId @ ''/retry'',
              ''/runs/'' @ runId @ ''/retry'']"
  shows "(k < 3 \<and> detailsVerdict W (answerAt W get detailsPaths st k) = Succeeds run
            \<and> (\<forall>j<k. \<forall>u. detailsVerdict W (answerAt W get detailsPaths st j) \<noteq> Succeeds u) \<longrightarrow>
            fst (getRunDetails W runId st) = Inr run
          \<and> issued st (snd (getRunDetails W runId st)) =
              requestsFor st get (take (Suc k) detailsPaths))
       \<and> ((\<forall>j<3. \<forall>u. detailsVerdict W (answerAt W get detailsPaths st j) \<noteq> Succeeds u) \<longrightarrow>
            fst (getRunDetails W runId st) =
              Inl (Err (''Failed to get run details for '' @ runId @ ''. Last error: ''
                @ (case lastFailure
                          (map (\<lambda>j. detailsVerdict W (answerAt W get detailsPaths st j)) [0..<3]) of
                     None \<Rightarrow> ''Unknown error''
                   | Some m \<Rightarrow> if m = [] then ''Unknown error'' else m)))
          \<and> issued st (snd (getRunDetails W runId st)) = requestsFor st get detailsPaths)
       \<and> (k < 3 \<and> postVerdict (answerAt W post cancelPaths st k) = Succeeds r
            \<and> (\<forall>j<k. \<forall>u. postVerdict (answerAt W post cancelPaths st j) \<noteq> Succeeds u) \<longrightarrow>
            fst (cancelRun W runId st) = Inr \<lparr> success = True \<rparr>
          \<and> issued st (snd (cancelRun W runId st)) =
              requestsFor st post (take (Suc k) cancelPaths))
       \<and> ((\<forall>j<3. \<forall>u. postVerdict (answerAt W post cancelPaths st j) \<noteq> Succeeds u) \<longrightarrow>
            fst (cancelRun W runId st) =
              Inl (Err (''Failed to cancel run '' @ runId @ ''. Last error: ''
                @ (case lastFailure
                          (map (\<lambda>j. postVerdict (answerAt W post cancelPaths st j)) [0..<3]) of
                     None \<Rightarrow> ''Unknown error''
                   | Some m \<Rightarrow> if m = [] then ''Unknown error'' else m)))
          \<and> issued st (snd (cancelRun W runId st)) = requestsFor st post cancelPaths)
       \<and> (k < 6 \<and> postVerdict (answerAt W post replayPaths st k) = Succeeds r
            \<and> (\<forall>j<k. \<forall>u. postVerdict (answerAt W post replayPaths st j) \<noteq> Succeeds u) \<longrightarrow>
            fst (replayRun W runId st) = Inr \<lparr> success = True \<rparr>
          \<and> issued st (snd (replayRun W runId st)) =
              requestsFor st post (take (Suc k) replayPaths))
       \<and> ((\<forall>j<6. \<forall>u. postVerdict (answerAt W post replayPaths st j) \<noteq> Succeeds u) \<longrightarrow>
            fst (replayRun W runId st) =
              Inl (Err (''Failed to replay run '' @ runId @ ''. Last error: ''
                @ (case lastFailure
                          (map (\<lambda>j. postVerdict (answerAt W post replayPaths st j)) [0..<6]) of
                     None \<Rightarrow> ''Unknown error''
                   | Some m \<Rightarrow> if m = [] then ''Unknown error'' else m)))
          \<and> issued st (snd (replayRun W runId st)) = requestsFor st post replayPaths)"
proof -
  have g: "get = noOptions" and p: "post = postOptions"
    using assms(2,3) by (simp_all add: noOptions_def postOptions_def)
  have d: "detailsPaths = runDetailsEndpoints runId" and ld: "length detailsPaths = 3"
    using assms(4) by (simp_all add: runDetailsEndpoints_def)
  have c: "cancelPaths = cancelEndpoints runId" and lc: "length cancelPaths = 3"
    using assms(5) by (simp_all add: cancelEndpoints_def)
  have y: "replayPaths = replayEndpoints runId" and ly: "length replayPaths = 6"
    using assms(6) by (simp_all add: replayEndpoints_def)
  have sr: "r = \<lparr> success = True \<rparr>" if "postVerdict a = Succeeds r" for a
    using that by (cases a) (auto split: if_splits sum.splits)
  have agD: "\<forall>j<length detailsPaths.
      agrees (detailsVerdict W (answerAt W get detailsPaths st j))
        (outcomeAt W get (runDetailsBody W) detailsPaths st j)"
    using details_agrees by blast
  have agC: "\<forall>j<length cancelPaths.
      agrees (postVerdict (answerAt W post cancelPaths st j))
        (outcomeAt W post successBody cancelPaths st j)"
    using post_agrees by blast
  have agY: "\<forall>j<length replayPaths.
      agrees (postVerdict (answerAt W post replayPaths st j))
        (outcomeAt W post successBody replayPaths st j)"
    using post_agrees by blast
  note D = loop_by_verdicts [OF agD, of k run, unfolded ld]
  note C = loop_by_verdicts [OF agC, of k r, unfolded lc]
  note Y = loop_by_verdicts [OF agY, of k r, unfolded ly]
  have fD: "fst (getRunDetails W runId st) =
      (case fst (tryEndpoints W get (runDetailsBody W) detailsPaths None st) of
         Inr run \<Rightarrow> Inr run
       | Inl lastErr \<Rightarrow>
           Inl (Err (''Failed to get run details for '' @ runId @ ''. Last error: ''
                       @ lastErrorText lastErr)))"
    and sD: "snd (getRunDetails W runId st) =
      snd (tryEndpoints W get (runDetailsBody W) detailsPaths None st)"
    using getRunDetails_cloud [OF assms(1), of W runId] by (simp_all add: g d)
  have fC: "fst (cancelRun W runId st) =
      (case fst (tryEndpoints W post successBody cancelPaths None st) of
         Inr r \<Rightarrow> Inr r
       | Inl lastErr \<Rightarrow>
           Inl (Err (''Failed to cancel run '' @ runId @ ''. Last error: ''
                       @ lastErrorText lastErr)))"
    and sC: "snd (cancelRun W runId st) =
      snd (tryEndpoints W post successBody cancelPaths None st)"
    using cancelRun_cloud [OF assms(1), of W runId] by (simp_all add: p c)
  have fY: "fst (replayRun W runId st) =
      (case fst (tryEndpoints W post successBody replayPaths None st) of
         Inr r \<Rightarrow> Inr r
       | Inl lastErr \<Rightarrow>
           Inl (Err (''Failed to replay run '' @ runId @ ''. Last error: ''
                       @ lastErrorText lastErr)))"
    and sY: "snd (replayRun W runId st) =
      snd (tryEndpoints W post successBody replayPaths None st)"
    using replayRun_cloud [OF assms(1), of W runId] by (simp_all add: p y)
  have partD1: "k < 3 \<and> detailsVerdict W (answerAt W get detailsPaths st k) = Succeeds run
            \<and> (\<forall>j<k. \<forall>u. detailsVerdict W (answerAt W get detailsPaths st j) \<noteq> Succeeds u) \<longrightarrow>
            fst (getRunDetails W runId st) = Inr run
          \<and> issued st (snd (getRunDetails W runId st)) =
              requestsFor st get (take (Suc k) detailsPaths)"
    using D unfolding fD sD by simp
  have partD2: "(\<forall>j<3. \<forall>u. detailsVerdict W (answerAt W get detailsPaths st j) \<noteq> Succeeds u) \<longrightarrow>
            fst (getRunDetails W runId st) =
              Inl (Err (''Failed to get run details for '' @ runId @ ''. Last error: ''
                @ (case lastFailure
                          (map (\<lambda>j. detailsVerdict W (answerAt W get detailsPaths st j)) [0..<3]) of
                     None \<Rightarrow> ''Unknown error''
                   | Some m \<Rightarrow> if m = [] then ''Unknown error'' else m)))
          \<and> issued st (snd (getRunDetails W runId st)) = requestsFor st get detailsPaths"
    using D unfolding fD sD by (simp add: lastErrorText_cases)
  have partC1: "k < 3 \<and> postVerdict (answerAt W post cancelPaths st k) = Succeeds r
            \<and> (\<forall>j<k. \<forall>u. postVerdict (answerAt W post cancelPaths st j) \<noteq> Succeeds u) \<longrightarrow>
            fst (cancelRun W runId st) = Inr \<lparr> success = True \<rparr>
          \<and> issued st (snd (cancelRun W runId st)) =
              requestsFor st post (take (Suc k) cancelPaths)"
    using C sr unfolding fC sC by auto
  have partC2: "(\<forall>j<3. \<forall>u. postVerdict (answerAt W post cancelPaths st j) \<noteq> Succeeds u) \<longrightarrow>
            fst (cancelRun W runId st) =
              Inl (Err (''Failed to cancel run '' @ runId @ ''. Last error: ''
                @ (case lastFailure
                          (map (\<lambda>j. postVerdict (answerAt W post cancelPaths st j)) [0..<3]) of
                     None \<Rightarrow> ''Unknown error''
                   | Some m \<Rightarrow> if m = [] then ''Unknown error'' else m)))
          \<and> issued st (snd (cancelRun W runId st)) = requestsFor st post cancelPaths"
    using C unfolding fC sC by (simp add: lastErrorText_cases)
  have partY1: "k < 6 \<and> postVerdict (answerAt W post replayPaths st k) = Succeeds r
            \<and> (\<forall>j<k. \<forall>u. postVerdict (answerAt W post replayPaths st j) \<noteq> Succeeds u) \<longrightarrow>
            fst (replayRun W runId st) = Inr \<lparr> success = True \<rparr>
          \<and> issued st (snd (replayRun W runId st)) =
              requestsFor st post (take (Suc k) replayPaths)"
    using Y sr unfolding fY sY by auto
  have partY2: "(\<forall>j<6. \<forall>u. postVerdict (answerAt W post replayPaths st j) \<noteq> Succeeds u) \<longrightarrow>
            fst (replayRun W runId st) =
              Inl (Err (''Failed to replay run '' @ runId @ ''. Last error: ''
                @ (case lastFailure
                          (map (\<lambda>j. postVerdict (answerAt W post replayPaths st j)) [0..<6]) of
                     None \<Rightarrow> ''Unknown error''
                   | Some m \<Rightarrow> if m = [] then ''Unknown error'' else m)))
          \<and> issued st (snd (replayRun W runId st)) = requestsFor st post replayPaths"
    using Y unfolding fY sY by (simp add: lastErrorText_cases)
  show ?thesis
    using partD1 partD2 partC1 partC2 partY1 partY2 by blast
qed

theorem candidate_paths_in_order_witness:
  "\<not> isLocal (config (newClient cloudConfig))
   \<and> fst (getRunDetails (scripted [Inr notFound, Inr notFound, Inr runEnvelopeOk]) ''run-123''
            (newClient cloudConfig)) = Inr runJson
   \<and> map url (issued (newClient cloudConfig)
        (snd (getRunDetails (scripted [Inr notFound, Inr notFound, Inr runEnvelopeOk]) ''run-123''
               (newClient cloudConfig))))
       = [''https://api.inngest.com/v0/runs/run-123'', ''https://api.inngest.com/v1/runs/run-123'',
          ''https://api.inngest.com/runs/run-123'']
   \<and> fst (getRunDetails (scripted [Inr notFound, Inr emptyJsonOk, Inr emptyJsonOk]) ''run-123''
            (newClient cloudConfig))
       = Inl (Err ''Failed to get run details for run-123. Last error: Inngest API error: 404 Not Found - {}'')
   \<and> fst (cancelRun (scripted [Inr emptyJsonOk]) ''run-123'' (newClient cloudConfig))
       = Inr \<lparr> success = True \<rparr>
   \<and> map url (issued (newClient cloudConfig)
        (snd (cancelRun (scripted [Inr emptyJsonOk]) ''run-123'' (newClient cloudConfig))))
       = [''https://api.inngest.com/v0/runs/run-123/cancel'']
   \<and> fst (cancelRun (scripted [Inr notFound, Inr notFound, Inr notFound]) ''run-123''
            (newClient cloudConfig))
       = Inl (Err ''Failed to cancel run run-123. Last error: Inngest API error: 404 Not Found - {}'')
   \<and> length (issued (newClient cloudConfig)
        (snd (cancelRun (scripted [Inr notFound, Inr notFound, Inr notFound]) ''run-123''
               (newClient cloudConfig)))) = 3
   \<and> fst (replayRun (scripted [Inr notFound, Inr notFound, Inr notFound, Inr emptyJsonOk])
            ''run-123'' (newClient cloudConfig)) = Inr \<lparr> success = True \<rparr>
   \<and> map url (issued (newClient cloudConfig)
        (snd (replayRun (scripted [Inr notFound, Inr notFound, Inr notFound, Inr emptyJsonOk])
               ''run-123'' (newClient cloudConfig))))
       = [''https://api.inngest.com/v0/runs/run-123/replay'',
          ''https://api.inngest.com/v1/runs/run-123/replay'',
          ''https://api.inngest.com/runs/run-123/replay'',
          ''https://api.inngest.com/v0/runs/run-123/retry'']"
proof -
  have n: "\<not> isLocal (config (newClient cloudConfig))"
    by (simp add: newClient_def cloudConfig_not_local)
  note ev = answerAt_def fixture_defs apiErrorMessage_def show_nat_404 requestsFor_def
    mkRequest_def numeral_2_eq_2 numeral_3_eq_3 All_less_Suc
  note a = candidate_paths_in_order [where runId = "''run-123''" and st = "newClient cloudConfig"
      and W = "scripted [Inr notFound, Inr notFound, Inr runEnvelopeOk]" and k = 2
      and run = runJson, OF n refl refl refl refl refl]
  note b = candidate_paths_in_order [where runId = "''run-123''" and st = "newClient cloudConfig"
      and W = "scripted [Inr notFound, Inr emptyJsonOk, Inr emptyJsonOk]",
      OF n refl refl refl refl refl]
  note c = candidate_paths_in_order [where runId = "''run-123''" and st = "newClient cloudConfig"
      and W = "scripted [Inr emptyJsonOk]" and k = 0 and r = "\<lparr> success = True \<rparr>",
      OF n refl refl refl refl refl]
  note d = candidate_paths_in_order [where runId = "''run-123''" and st = "newClient cloudConfig"
      and W = "scripted [Inr notFound, Inr notFound, Inr notFound]",
      OF n refl refl refl refl refl]
  note e = candidate_paths_in_order [where runId = "''run-123''" and st = "newClient cloudConfig"
      and W = "scripted [Inr notFound, Inr notFound, Inr notFound, Inr emptyJsonOk]" and k = 3
      and r = "\<lparr> success = True \<rparr>", OF n refl refl refl refl refl]
  have a': "fst (getRunDetails (scripted [Inr notFound, Inr notFound, Inr runEnvelopeOk]) ''run-123''
            (newClient cloudConfig)) = Inr runJson"
    "map url (issued (newClient cloudConfig)
        (snd (getRunDetails (scripted [Inr notFound, Inr notFound, Inr runEnvelopeOk]) ''run-123''
               (newClient cloudConfig))))
       = [''https://api.inngest.com/v0/runs/run-123'', ''https://api.inngest.com/v1/runs/run-123'',
          ''https://api.inngest.com/runs/run-123'']"
    using a by (simp_all add: ev)
  have b': "fst (getRunDetails (scripted [Inr notFound, Inr emptyJsonOk, Inr emptyJsonOk]) ''run-123''
            (newClient cloudConfig))
       = Inl (Err ''Failed to get run details for run-123. Last error: Inngest API error: 404 Not Found - {}'')"
    using b by (simp add: ev upt_rec [of 0] upt_rec [of 1] upt_rec [of 2])
  have c': "fst (cancelRun (scripted [Inr emptyJsonOk]) ''run-123'' (newClient cloudConfig))
       = Inr \<lparr> success = True \<rparr>"
    "map url (issued (newClient cloudConfig)
        (snd (cancelRun (scripted [Inr emptyJsonOk]) ''run-123'' (newClient cloudConfig))))
       = [''https://api.inngest.com/v0/runs/run-123/cancel'']"
    using c by (simp_all add: ev)
  have d': "fst (cancelRun (scripted [Inr notFound, Inr notFound, Inr notFound]) ''run-123''
            (newClient cloudConfig))
       = Inl (Err ''Failed to cancel run run-123. Last error: Inngest API error: 404 Not Found - {}'')"
    "length (issued (newClient cloudConfig)
        (snd (cancelRun (scripted [Inr notFound, Inr notFound, Inr notFound]) ''run-123''
               (newClient cloudConfig)))) = 3"
    using d by (simp_all add: ev upt_rec [of 0] upt_rec [of 1] upt_rec [of 2])
  have e': "fst (replayRun (scripted [Inr notFound, Inr notFound, Inr notFound, Inr emptyJsonOk])
            ''run-123'' (newClient cloudConfig)) = Inr \<lparr> success = True \<rparr>"
    "map url (issued (newClient cloudConfig)
        (snd (replayRun (scripted [Inr notFound, Inr notFound, Inr notFound, Inr emptyJsonOk])
               ''run-123'' (newClient cloudConfig))))
       = [''https://api.inngest.com/v0/runs/run-123/replay'',
          ''https://api.inngest.com/v1/runs/run-123/replay'',
          ''https://api.inngest.com/runs/run-123/replay'',
          ''https://api.inngest.com/v0/runs/run-123/retry'']"
    using e by (simp_all add: ev)
  show ?thesis
    using n a' b' c' d' e' by simp
qed

section \<open>Authentication of the requests the client issues\<close>

lemma plain_headers:
  assumes "plainRequest c r"
  shows "map_of (headers r) k =
     (if k = ''Authorization'' \<and> authRequired c then Some (''Bearer '' @ signingKey c)
      else if k = ''X-Inngest-Env'' \<and> truthy_str (env c) then env c
      else if k = ''Content-Type'' then Some ''application/json'' else None)"
proof -
  from assms obtain options endpoint where
    o: "opt_headers options = None" and r: "r = mkRequest c options endpoint"
    unfolding plainRequest_def by blast
  show ?thesis
    unfolding r using requestHeaders_plain [OF o, of c k] by (simp add: mkRequest_def)
qed

lemma apiRequest_issued:
  "issued st (snd (apiRequest W endpoint options st)) = [mkRequest (config st) options endpoint]"
  by (simp add: issued_def apiRequest_calls)

lemma tryEndpoints_issued:
  "set (issued st (snd (tryEndpoints W options tryBody eps lastErr st)))
     \<subseteq> mkRequest (config st) options ` set eps"
proof -
  from tryEndpoints_requests [of eps W options tryBody lastErr st]
  obtain k where "calls (snd (tryEndpoints W options tryBody eps lastErr st)) =
      calls st @ map (mkRequest (config st) options) (take k eps)"
    by blast
  then show ?thesis
    by (auto simp: issued_def dest: in_set_takeD)
qed

lemma getEventRuns_snd:
  "snd (getEventRuns W eventId st) =
     snd (apiRequest W (''/v1/events/'' @ eventId @ ''/runs'') noOptions st)"
  by (simp add: getEventRuns_def split: prod.splits sum.splits)

lemma getFunctionRuns_snd:
  "snd (getFunctionRuns W fid limit st) =
     snd (apiRequest W (''/v1/functions/'' @ fid @ ''/runs?limit=''
                          @ show_int (case limit of None \<Rightarrow> 20 | Some l \<Rightarrow> l)) noOptions st)"
  by (simp add: getFunctionRuns_def Let_def split: prod.splits sum.splits)

lemma bulkCancelRuns_snd:
  "snd (bulkCancelRuns W params st) =
     snd (apiRequest W ''/v1/cancellations''
            \<lparr> opt_method = Some ''POST'', opt_headers = None,
              opt_body = Some (stringify W (JObj (bulkCancelBody params))) \<rparr> st)"
  by (simp add: bulkCancelRuns_def split: prod.splits sum.splits)

lemma getRunDetails_snd:
  "snd (getRunDetails W runId st) =
     (if isLocal (config st) then st
      else snd (tryEndpoints W noOptions (runDetailsBody W) (runDetailsEndpoints runId) None st))"
  by (simp add: getRunDetails_def split: prod.splits sum.splits)

lemma cancelRun_snd:
  "snd (cancelRun W runId st) =
     (if isLocal (config st) then st
      else snd (tryEndpoints W postOptions successBody (cancelEndpoints runId) None st))"
  by (simp add: cancelRun_def split: prod.splits sum.splits)

lemma replayRun_snd:
  "snd (replayRun W runId st) =
     (if isLocal (config st) then st
      else snd (tryEndpoints W postOptions successBody (replayEndpoints runId) None st))"
  by (simp add: replayRun_def split: prod.splits sum.splits)

lemma issued_self: "issued st st = []"
  by (simp add: issued_def)

lemma plainRequestI:
  "opt_headers options = None \<Longrightarrow> plainRequest c (mkRequest c options endpoint)"
  unfolding plainRequest_def by blast

lemma apiRequest_plain:
  assumes "opt_headers options = None"
      and "r \<in> set (issued st (snd (apiRequest W endpoint options st)))"
  shows "plainRequest (config st) r"
  using assms by (simp add: apiRequest_issued plainRequestI)

lemma tryEndpoints_plain:
  assumes "opt_headers options = None"
      and "r \<in> set (issued st (snd (tryEndpoints W options tryBody eps lastErr st)))"
  shows "plainRequest (config st) r"
  using assms tryEndpoints_issued [of st W options tryBody eps lastErr]
  by (auto simp: plainRequestI)

lemma issued_plain:
  assumes "r \<in> set (issued st (stateAfter W op st))"
  shows "plainRequest (config st) r"
proof (cases op)
  case (GetEventRuns eventId)
  with assms show ?thesis
    by (auto simp: getEventRuns_snd noOptions_def intro: apiRequest_plain [rotated])
next
  case (GetFunctionRuns fid limit)
  with assms show ?thesis
    by (auto simp: getFunctionRuns_snd noOptions_def intro: apiRequest_plain [rotated])
next
  case (GetRunDetails runId)
  with assms show ?thesis
    by (auto simp: getRunDetails_snd issued_self noOptions_def split: if_splits
             intro: tryEndpoints_plain [rotated])
next
  case (GetRunSteps runId)
  with assms show ?thesis
    by (simp add: getRunSteps_def issued_self)
next
  case (CancelRun runId)
  with assms show ?thesis
    by (auto simp: cancelRun_snd issued_self postOptions_def split: if_splits
             intro: tryEndpoints_plain [rotated])
next
  case (BulkCancelRuns params)
  with assms show ?thesis
    by (auto simp: bulkCancelRuns_snd intro: apiRequest_plain [rotated])
next
  case (ReplayRun runId)
  with assms show ?thesis
    by (auto simp: replayRun_snd issued_self postOptions_def split: if_splits
             intro: tryEndpoints_plain [rotated])
next
  case (SendEvent eventName payload)
  with assms show ?thesis
    by (auto simp: sendEvent_def intro: apiRequest_plain [rotated])
qed

text \<open>
  Claim C1. Every request that a client operation issues carries the header
  Authorization with the value "Bearer " followed by the signing key exactly when the
  signing key is present (not empty), differs from "local-dev-key", and the base URL
  contains neither "localhost" nor "127.0.0.1"; otherwise it carries no Authorization
  header. Whenever the environment tag is set (a non-empty string), the request carries
  it as X-Inngest-Env, whatever the auth decision.
\<close>

theorem auth_header_rule:
  assumes "r \<in> set (issued st (stateAfter W op st))"
  shows "map_of (headers r) ''Authorization'' =
           (if signingKey (config st) \<noteq> [] \<and> signingKey (config st) \<noteq> ''local-dev-key''
               \<and> \<not> str_includes (baseUrl (config st)) ''localhost''
               \<and> \<not> str_includes (baseUrl (config st)) ''127.0.0.1''
            then Some (''Bearer '' @ signingKey (config st)) else None)
       \<and> (truthy_str (env (config st)) \<longrightarrow>
            map_of (headers r) ''X-Inngest-Env'' = env (config st))"
  using plain_headers [OF issued_plain [OF assms]]
  by (simp add: authRequired_def)

theorem auth_header_rule_witness:
  "\<lparr> url = ''https://api.inngest.com/v1/events/event-123/runs'', reqMethod = None,
      headers = [(''Content-Type'', ''application/json''), (''X-Inngest-Env'', ''staging''),
                 (''Authorization'', ''Bearer test-key'')],
      body = None \<rparr>
     \<in> set (issued (newClient cloudConfig)
              (stateAfter (scripted [Inr emptyJsonOk]) (GetEventRuns ''event-123'')
                 (newClient cloudConfig)))
   \<and> map_of [(''Content-Type'', ''application/json''), (''X-Inngest-Env'', ''staging''),
              (''Authorization'', ''Bearer test-key'')] ''Authorization''
       = Some (''Bearer '' @ signingKey cloudConfig)
   \<and> map_of [(''Content-Type'', ''application/json''), (''X-Inngest-Env'', ''staging''),
              (''Authorization'', ''Bearer test-key'')] ''X-Inngest-Env'' = env cloudConfig"
proof -
  have m: "\<lparr> url = ''https://api.inngest.com/v1/events/event-123/runs'', reqMethod = None,
      headers = [(''Content-Type'', ''application/json''), (''X-Inngest-Env'', ''staging''),
                 (''Authorization'', ''Bearer test-key'')],
      body = None \<rparr>
     \<in> set (issued (newClient cloudConfig)
              (stateAfter (scripted [Inr emptyJsonOk]) (GetEventRuns ''event-123'')
                 (newClient cloudConfig)))"
    by (simp add: getEventRuns_snd apiRequest_issued mkRequest_def requestHeaders_def Let_def
          authRequired_def noOptions_def newClient_def cloudConfig_def)
  from auth_header_rule [OF m] show ?thesis
    using m by (simp add: newClient_def cloudConfig_def)
qed

text \<open>
  Claim C2, as the code has it. The claim says that every configuration other than
  "local base URL and sentinel key" sends Authorization. A production key with a
  localhost base URL is such a configuration, and its request has no Authorization.
\<close>

theorem prod_key_on_localhost_counterexample:
  "signingKey prodKeyLocalConfig \<noteq> ''local-dev-key''
   \<and> length (issued (newClient prodKeyLocalConfig)
        (stateAfter (scripted [Inr emptyJsonOk]) (GetEventRuns ''event-123'')
           (newClient prodKeyLocalConfig))) = 1
   \<and> map_of (headers (hd (issued (newClient prodKeyLocalConfig)
        (stateAfter (scripted [Inr emptyJsonOk]) (GetEventRuns ''event-123'')
           (newClient prodKeyLocalConfig))))) ''Authorization'' = None"
  by (simp add: getEventRuns_snd apiRequest_issued mkRequest_def requestHeaders_def Let_def
        authRequired_def noOptions_def newClient_def prodKeyLocalConfig_def)

text \<open>
  Claim C2, amended. When the base URL contains "localhost" or "127.0.0.1", or the
  signing key is "local-dev-key" or empty, no request of a client operation carries an
  Authorization header; for every other configuration each request carries
  Authorization: Bearer followed by the signing key.
\<close>

theorem auth_by_configuration:
  assumes "r \<in> set (issued st (stateAfter W op st))"
  shows "(str_includes (baseUrl (config st)) ''localhost''
          \<or> str_includes (baseUrl (config st)) ''127.0.0.1''
          \<or> signingKey (config st) = ''local-dev-key''
          \<or> signingKey (config st) = [] \<longrightarrow>
            map_of (headers r) ''Authorization'' = None)
       \<and> (\<not> str_includes (baseUrl (config st)) ''localhost''
          \<and> \<not> str_includes (baseUrl (config st)) ''127.0.0.1''
          \<and> signingKey (config st) \<noteq> ''local-dev-key''
          \<and> signingKey (config st) \<noteq> [] \<longrightarrow>
            map_of (headers r) ''Authorization'' = Some (''Bearer '' @ signingKey (config st)))"
  using plain_headers [OF issued_plain [OF assms], of "''Authorization''"]
  by (auto simp: authRequired_def)

theorem auth_by_configuration_witness:
  "hd (issued (newClient prodKeyLocalConfig)
        (stateAfter (scripted [Inr emptyJsonOk]) (SendEvent ''test.event'' (JObj []))
           (newClient prodKeyLocalConfig)))
     \<in> set (issued (newClient prodKeyLocalConfig)
        (stateAfter (scripted [Inr emptyJsonOk]) (SendEvent ''test.event'' (JObj []))
           (newClient prodKeyLocalConfig)))
   \<and> str_includes (baseUrl (config (newClient prodKeyLocalConfig))) ''localhost''
   \<and> map_of (headers (hd (issued (newClient prodKeyLocalConfig)
        (stateAfter (scripted [Inr emptyJsonOk]) (SendEvent ''test.event'' (JObj []))
           (newClient prodKeyLocalConfig))))) ''Authorization'' = None"
proof -
  have m: "hd (issued (newClient prodKeyLocalConfig)
        (stateAfter (scripted [Inr emptyJsonOk]) (SendEvent ''test.event'' (JObj []))
           (newClient prodKeyLocalConfig)))
     \<in> set (issued (newClient prodKeyLocalConfig)
        (stateAfter (scripted [Inr emptyJsonOk]) (SendEvent ''test.event'' (JObj []))
           (newClient prodKeyLocalConfig)))"
    by (simp add: sendEvent_def apiRequest_issued)
  have l: "str_includes (baseUrl (config (newClient prodKeyLocalConfig))) ''localhost''"
    by (simp add: newClient_def prodKeyLocalConfig_def)
  from auth_by_configuration [OF m] l show ?thesis
    using m by simp
qed

section \<open>The body of a bulk cancellation\<close>

lemma keys_obj_set:
  "map fst (obj_set k v h) = (if k \<in> set (map fst h) then map fst h else map fst h @ [k])"
  by (induction h) auto

lemma distinct_obj_set: "distinct (map fst h) \<Longrightarrow> distinct (map fst (obj_set k v h))"
  by (simp add: keys_obj_set)

lemma bulkCancelBody_lookup:
  "map_of (bulkCancelBody params) k =
     (if k = ''function_id'' \<and> truthy_str (functionId params)
        then map_option JStr (functionId params)
      else if k = ''started_after'' \<and> truthy_str (startedAfter params)
        then map_option JStr (startedAfter params)
      else if k = ''started_before'' \<and> truthy_str (startedBefore params)
        then map_option JStr (startedBefore params)
      else if k = ''if'' \<and> truthy_str (condition params)
        then map_option JStr (condition params)
      else None)"
  by (cases "functionId params"; cases "startedAfter params"; cases "startedBefore params";
      cases "condition params")
     (simp_all add: bulkCancelBody_def Let_def map_of_obj_set)

lemma bulkCancelBody_distinct: "distinct (map fst (bulkCancelBody params))"
  by (simp add: bulkCancelBody_def Let_def distinct_obj_set)

text \<open>
  Claim C7. bulkCancelRuns issues one POST to /v1/cancellations whose body is
  \<open>JSON.stringify\<close> of an object with distinct keys that holds, for each supplied
  (non-empty) input field, the key it maps to with the field's value, and nothing else:
  functionId as function_id, startedAfter as started_after, startedBefore as
  started_before, condition as if. A field left out is absent, not null. With only a
  function ID supplied the object is the single pair function_id.
\<close>

theorem bulkCancel_body:
  "(\<exists>req. issued st (snd (bulkCancelRuns W params st)) = [req]
        \<and> url req = baseUrl (config st) @ ''/v1/cancellations''
        \<and> reqMethod req = Some ''POST''
        \<and> body req = Some (stringify W (JObj (bulkCancelBody params))))
   \<and> distinct (map fst (bulkCancelBody params))
   \<and> (\<forall>k. map_of (bulkCancelBody params) k =
         (if k = ''function_id'' \<and> truthy_str (functionId params)
            then map_option JStr (functionId params)
          else if k = ''started_after'' \<and> truthy_str (startedAfter params)
            then map_option JStr (startedAfter params)
          else if k = ''started_before'' \<and> truthy_str (startedBefore params)
            then map_option JStr (startedBefore params)
          else if k = ''if'' \<and> truthy_str (condition params)
            then map_option JStr (condition params)
          else None))
   \<and> (truthy_str (functionId params) \<and> startedAfter params = None
        \<and> startedBefore params = None \<and> condition params = None \<longrightarrow>
          bulkCancelBody params = [(''function_id'', JStr (the (functionId params)))])"
proof (intro conjI allI impI)
  show "\<exists>req. issued st (snd (bulkCancelRuns W params st)) = [req]
        \<and> url req = baseUrl (config st) @ ''/v1/cancellations''
        \<and> reqMethod req = Some ''POST''
        \<and> body req = Some (stringify W (JObj (bulkCancelBody params)))"
    by (simp add: bulkCancelRuns_snd apiRequest_issued mkRequest_def)
  show "distinct (map fst (bulkCancelBody params))"
    by (rule bulkCancelBody_distinct)
  show "map_of (bulkCancelBody params) k =
         (if k = ''function_id'' \<and> truthy_str (functionId params)
            then map_option JStr (functionId params)
          else if k = ''started_after'' \<and> truthy_str (startedAfter params)
            then map_option JStr (startedAfter params)
          else if k = ''started_before'' \<and> truthy_str (startedBefore params)
            then map_option JStr (startedBefore params)
          else if k = ''if'' \<and> truthy_str (condition params)
            then map_option JStr (condition params)
          else None)" for k
    by (rule bulkCancelBody_lookup)
  show "bulkCancelBody params = [(''function_id'', JStr (the (functionId params)))]"
    if "truthy_str (functionId params) \<and> startedAfter params = None
        \<and> startedBefore params = None \<and> condition params = None"
    using that by (simp add: bulkCancelBody_def)
qed

theorem bulkCancel_body_witness:
  "truthy_str (functionId \<lparr> functionId = Some ''func-123'', startedAfter = None,
                             startedBefore = None, condition = None \<rparr>)
   \<and> bulkCancelBody \<lparr> functionId = Some ''func-123'', startedAfter = None,
                       startedBefore = None, condition = None \<rparr>
       = [(''function_id'', JStr ''func-123'')]
   \<and> map_of (bulkCancelBody \<lparr> functionId = Some ''func-123'', startedAfter = None,
                       startedBefore = None, condition = Some ''status == 1'' \<rparr>) ''if''
       = Some (JStr ''status == 1'')
   \<and> map_of (bulkCancelBody \<lparr> functionId = Some ''func-123'', startedAfter = None,
                       startedBefore = None, condition = Some ''status == 1'' \<rparr>) ''started_after''
       = None"
  using bulkCancel_body [of "newClient cloudConfig" "scripted []"
          "\<lparr> functionId = Some ''func-123'', startedAfter = None,
             startedBefore = None, condition = None \<rparr>"]
        bulkCancel_body [of "newClient cloudConfig" "scripted []"
          "\<lparr> functionId = Some ''func-123'', startedAfter = None,
             startedBefore = None, condition = Some ''status == 1'' \<rparr>"]
  by simp

section \<open>Successful responses that getRunDetails does not accept\<close>

lemma runDetailsBody_bare:
  assumes "bareSuccess r"
  shows "\<exists>v. bodyJson r = Inr v \<and> ok r \<and> runDetailsBody W v = Inr None"
proof (cases "bodyJson r")
  case (Inl e)
  with assms show ?thesis by (simp add: bareSuccess_def)
next
  case (Inr v)
  show ?thesis
  proof (cases v)
    case (JObj kvs)
    with assms Inr have "map_of kvs ''run_id'' = None" "\<not> truthy_opt (map_of kvs ''data'')" "ok r"
      by (simp_all add: bareSuccess_def)
    then have "runDetailsBody W (JObj kvs) = Inr None"
      by (cases "map_of kvs ''data''") auto
    with Inr JObj \<open>ok r\<close> show ?thesis by simp
  qed (use assms Inr in \<open>auto simp: bareSuccess_def\<close>)
qed

lemma bare_outcome:
  assumes "j < length eps"
      and "answerAt W noOptions eps st j = Inr r"
      and "bareSuccess r"
  shows "outcomeAt W noOptions (runDetailsBody W) eps st j = Inr None"
proof -
  have l: "length (calls (reached noOptions eps st j)) = length (calls st) + j"
    using assms(1) by (simp add: reached_def)
  have c: "config (reached noOptions eps st j) = config st"
    by (simp add: reached_def)
  obtain v where v: "bodyJson r = Inr v" "ok r" "runDetailsBody W v = Inr None"
    using runDetailsBody_bare [OF assms(3)] by blast
  show ?thesis
    using assms(2) v
    by (simp add: outcomeAt_def attempt_def apiRequest_def Let_def l c answerAt_def)
qed

lemma accepted_outcome:
  assumes "j < length eps"
      and "answerAt W noOptions eps st j = Inr r"
      and "ok r" and "bodyJson r = Inr v" and "runDetailsBody W v = Inr (Some run)"
  shows "outcomeAt W noOptions (runDetailsBody W) eps st j = Inr (Some run)"
proof -
  have l: "length (calls (reached noOptions eps st j)) = length (calls st) + j"
    using assms(1) by (simp add: reached_def)
  have c: "config (reached noOptions eps st j) = config st"
    by (simp add: reached_def)
  show ?thesis
    using assms(2-)
    by (simp add: outcomeAt_def attempt_def apiRequest_def Let_def l c answerAt_def)
qed

lemma tryEndpoints_skip_then_return:
  assumes "k < length eps"
      and "outcomeAt W options tryBody eps st k = Inr (Some v)"
      and "\<forall>j<k. outcomeAt W options tryBody eps st j = Inr None"
  shows "lastError (snd (tryEndpoints W options tryBody eps lastErr st)) = lastError st"
  using assms
proof (induction eps arbitrary: k st)
  case Nil
  then show ?case by simp
next
  case (Cons ep rest)
  show ?case
  proof (cases k)
    case 0
    with Cons.prems(2) have "fst (attempt W options tryBody ep st) = Inr (Some v)"
      by (simp add: outcomeAt_0)
    then show ?thesis
      unfolding tryEndpoints_step by (simp add: attempt_lastError)
  next
    case (Suc k')
    have n: "fst (attempt W options tryBody ep st) = Inr None"
      using Cons.prems(3) Suc by (auto simp: outcomeAt_0 dest: spec [of _ 0])
    then have "\<forall>u. fst (attempt W options tryBody ep st) \<noteq> Inr (Some u)"
      by simp
    then obtain st1 :: Client and le1 where
      c: "config st1 = config st"
      and l: "calls st1 = calls st @ [mkRequest (config st) options ep]"
      and t: "tryEndpoints W options tryBody (ep # rest) lastErr st =
                tryEndpoints W options tryBody rest le1 st1"
      and q: "fst (attempt W options tryBody ep st) = Inr None \<longrightarrow>
                le1 = lastErr \<and> lastError st1 = lastError st"
      by (rule tryEndpoints_step_no_success)
    have a: "k' < length rest" using Cons.prems(1) Suc by simp
    have b: "outcomeAt W options tryBody rest st1 k' = Inr (Some v)"
      using Cons.prems(2) Suc outcomeAt_Suc [OF c l, of W tryBody rest k'] by simp
    have d: "\<forall>j<k'. outcomeAt W options tryBody rest st1 j = Inr None"
      using Cons.prems(3) Suc outcomeAt_Suc [OF c l, of W tryBody rest] by auto
    from Cons.IH [OF a b d] show ?thesis
      unfolding t using q n by simp
  qed
qed

text \<open>
  Claim C10. On a base URL that is not local, a candidate of getRunDetails that answers
  with HTTP success and a parsed body having neither a truthy \<open>data\<close> nor a \<open>run_id\<close>
  does not end the operation and records no error: if the candidates before \<open>k\<close>
  answer that way and candidate \<open>k\<close> answers with a body the operation accepts, the
  result is that of candidate \<open>k\<close>, after \<open>k + 1\<close> requests, and the last-error field
  is as before; if all three candidates answer that way, the operation throws the
  aggregate Error that ends in "Last error: Unknown error", after three requests, and
  the last-error field is as before.
\<close>

theorem bare_success_is_skipped:
  assumes "\<not> isLocal (config st)"
  shows "(k < 3
          \<and> (\<forall>j<k. \<exists>r. answerAt W noOptions (runDetailsEndpoints runId) st j = Inr r
                        \<and> bareSuccess r)
          \<and> answerAt W noOptions (runDetailsEndpoints runId) st k = Inr r
          \<and> ok r \<and> bodyJson r = Inr v \<and> runDetailsBody W v = Inr (Some run) \<longrightarrow>
            fst (getRunDetails W runId st) = Inr run
          \<and> issued st (snd (getRunDetails W runId st)) =
              requestsFor st noOptions (take (Suc k) (runDetailsEndpoints runId))
          \<and> lastError (snd (getRunDetails W runId st)) = lastError st)
       \<and> ((\<forall>j<3. \<exists>r. answerAt W noOptions (runDetailsEndpoints runId) st j = Inr r
                        \<and> bareSuccess r) \<longrightarrow>
            fst (getRunDetails W runId st) =
              Inl (Err (''Failed to get run details for '' @ runId
                          @ ''. Last error: Unknown error''))
          \<and> issued st (snd (getRunDetails W runId st)) =
              requestsFor st noOptions (runDetailsEndpoints runId)
          \<and> lastError (snd (getRunDetails W runId st)) = lastError st)"
proof (intro conjI impI)
  let ?eps = "runDetailsEndpoints runId"
  have len: "length ?eps = 3" by (simp add: runDetailsEndpoints_def)
  assume h: "k < 3
          \<and> (\<forall>j<k. \<exists>r. answerAt W noOptions ?eps st j = Inr r \<and> bareSuccess r)
          \<and> answerAt W noOptions ?eps st k = Inr r
          \<and> ok r \<and> bodyJson r = Inr v \<and> runDetailsBody W v = Inr (Some run)"
  then have kl: "k < length ?eps" using len by simp
  have skipped: "\<forall>j<k. outcomeAt W noOptions (runDetailsBody W) ?eps st j = Inr None"
  proof (intro allI impI)
    fix j assume j: "j < k"
    with h obtain b where "answerAt W noOptions ?eps st j = Inr b" "bareSuccess b"
      by blast
    then show "outcomeAt W noOptions (runDetailsBody W) ?eps st j = Inr None"
      using j kl by (intro bare_outcome) simp_all
  qed
  have here: "outcomeAt W noOptions (runDetailsBody W) ?eps st k = Inr (Some run)"
    using h kl by (auto intro: accepted_outcome)
  have fs: "firstSuccess W noOptions (runDetailsBody W) ?eps st k run"
    using kl skipped here by (simp add: firstSuccess_def)
  from loop_first_success [OF fs] assms
  show "fst (getRunDetails W runId st) = Inr run"
    and "issued st (snd (getRunDetails W runId st)) = requestsFor st noOptions (take (Suc k) ?eps)"
    by (simp_all add: getRunDetails_cloud)
  from tryEndpoints_skip_then_return [OF kl here skipped, of None] assms
  show "lastError (snd (getRunDetails W runId st)) = lastError st"
    by (simp add: getRunDetails_cloud)
next
  let ?eps = "runDetailsEndpoints runId"
  have len: "length ?eps = 3" by (simp add: runDetailsEndpoints_def)
  assume h: "\<forall>j<3. \<exists>r. answerAt W noOptions ?eps st j = Inr r \<and> bareSuccess r"
  have skipped: "\<forall>j<length ?eps. outcomeAt W noOptions (runDetailsBody W) ?eps st j = Inr None"
  proof (intro allI impI)
    fix j assume j: "j < length ?eps"
    with h len obtain b where "answerAt W noOptions ?eps st j = Inr b" "bareSuccess b"
      by auto
    then show "outcomeAt W noOptions (runDetailsBody W) ?eps st j = Inr None"
      using j by (intro bare_outcome) simp_all
  qed
  then have n: "\<forall>j<length ?eps. \<forall>u. outcomeAt W noOptions (runDetailsBody W) ?eps st j \<noteq> Inr (Some u)"
    by simp
  from tryEndpoints_fall_through [OF skipped, of None] assms
  show "fst (getRunDetails W runId st) =
              Inl (Err (''Failed to get run details for '' @ runId
                          @ ''. Last error: Unknown error''))"
    and "lastError (snd (getRunDetails W runId st)) = lastError st"
    by (simp_all add: getRunDetails_cloud)
  from tryEndpoints_no_success [OF n, of None] assms
  show "issued st (snd (getRunDetails W runId st)) = requestsFor st noOptions ?eps"
    by (simp add: getRunDetails_cloud issued_def requestsFor_def)
qed

theorem bare_success_is_skipped_witness:
  "\<not> isLocal (config (newClient cloudConfig))
   \<and> fst (getRunDetails (scripted [Inr emptyJsonOk, Inr runEnvelopeOk]) ''run-123''
            (newClient cloudConfig)) = Inr runJson
   \<and> length (issued (newClient cloudConfig)
        (snd (getRunDetails (scripted [Inr emptyJsonOk, Inr runEnvelopeOk]) ''run-123''
               (newClient cloudConfig)))) = 2
   \<and> fst (getRunDetails (scripted [Inr emptyJsonOk, Inr emptyJsonOk, Inr emptyJsonOk]) ''run-123''
            (newClient cloudConfig))
       = Inl (Err ''Failed to get run details for run-123. Last error: Unknown error'')
   \<and> lastError (snd (getRunDetails (scripted [Inr emptyJsonOk, Inr emptyJsonOk, Inr emptyJsonOk])
                        ''run-123'' (newClient cloudConfig))) = None
   \<and> length (issued (newClient cloudConfig)
        (snd (getRunDetails (scripted [Inr emptyJsonOk, Inr emptyJsonOk, Inr emptyJsonOk])
               ''run-123'' (newClient cloudConfig)))) = 3"
proof -
  have n: "\<not> isLocal (config (newClient cloudConfig))"
    by (simp add: newClient_def cloudConfig_not_local)
  have b: "bareSuccess emptyJsonOk"
    by (simp add: bareSuccess_def fixture_defs)
  note a = bare_success_is_skipped [OF n,
      of 1 "scripted [Inr emptyJsonOk, Inr runEnvelopeOk]" "''run-123''" runEnvelopeOk
         "JObj [(''data'', runJson)]" runJson]
  note c = bare_success_is_skipped [OF n,
      of _ "scripted [Inr emptyJsonOk, Inr emptyJsonOk, Inr emptyJsonOk]" "''run-123''"]
  have h1: "\<forall>j<1. \<exists>r. answerAt (scripted [Inr emptyJsonOk, Inr runEnvelopeOk]) noOptions
                (runDetailsEndpoints ''run-123'') (newClient cloudConfig) j = Inr r \<and> bareSuccess r"
    using b by (simp add: answerAt_def scripted_def newClient_def)
  have h2: "answerAt (scripted [Inr emptyJsonOk, Inr runEnvelopeOk]) noOptions
                (runDetailsEndpoints ''run-123'') (newClient cloudConfig) 1 = Inr runEnvelopeOk
            \<and> ok runEnvelopeOk \<and> bodyJson runEnvelopeOk = Inr (JObj [(''data'', runJson)])
            \<and> runDetailsBody (scripted [Inr emptyJsonOk, Inr runEnvelopeOk])
                 (JObj [(''data'', runJson)]) = Inr (Some runJson)"
    by (simp add: answerAt_def fixture_defs runDetailsEndpoints_def)
  have h3: "\<forall>j<3. \<exists>r. answerAt (scripted [Inr emptyJsonOk, Inr emptyJsonOk, Inr emptyJsonOk])
                noOptions (runDetailsEndpoints ''run-123'') (newClient cloudConfig) j = Inr r
                \<and> bareSuccess r"
    using b by (simp add: answerAt_def scripted_def newClient_def numeral_3_eq_3 All_less_Suc)
  show ?thesis
    using n a h1 h2 c h3
    by (simp add: requestsFor_def runDetailsEndpoints_def newClient_def)
qed

section \<open>Rendering the end of a run\<close>



























































section \<open>Errors at the tool boundary\<close>

lemma getRunDetails_throws_Error:
  assumes "getRunDetails W runId st = (Inl e, st1)"
  shows "\<exists>m. e = Err m"
  using assms by (auto simp: getRunDetails_def split: if_splits prod.splits sum.splits)

lemma sendEventSchema_args:
  "sendEventSchema raw = Some a \<Longrightarrow> \<exists>n p. a = SendEventArgs n p"
  by (cases raw) (auto split: option.splits Json.splits)

lemma eventRunsSchema_args:
  "eventRunsSchema raw = Some a \<Longrightarrow> \<exists>i l. a = EventRunsArgs i l"
  by (cases raw) (auto split: option.splits Json.splits)

lemma runHistorySchema_args:
  "runHistorySchema raw = Some a \<Longrightarrow> \<exists>r. a = RunHistoryArgs r"
  by (cases raw) (auto split: option.splits Json.splits)

lemma runActionSchema_args:
  "runActionSchema raw = Some a \<Longrightarrow> \<exists>r act. a = RunActionArgs r act"
  by (cases raw) (auto split: option.splits Json.splits if_splits)

lemma emptySchema_args:
  "emptySchema raw = Some a \<Longrightarrow> a = NoArgs"
  by (cases raw) auto

lemma callTool_failure:
  "fst (callTool W V tool raw st) = ProtocolFailure \<longleftrightarrow> inputSchema tool raw = None"
proof (cases "inputSchema tool raw")
  case None
  then show ?thesis by (cases tool) simp_all
next
  case (Some a)
  then show ?thesis
  proof (cases tool)
    case SendEventTool
    with Some sendEventSchema_args [of raw a] show ?thesis
      by (auto split: prod.splits)
  next
    case GetEventRunsTool
    with Some eventRunsSchema_args [of raw a] show ?thesis
      by (auto split: prod.splits)
  next
    case GetRunDetailsTool
    with Some runHistorySchema_args [of raw a] show ?thesis
      by (auto split: prod.splits)
  next
    case ManageRunTool
    with Some runActionSchema_args [of raw a] show ?thesis
      by (auto split: prod.splits)
  next
    case DebugConnectionTool
    with Some emptySchema_args [of raw a] show ?thesis
      by (auto split: prod.splits)
  qed
qed

text \<open>
  Claim C8. For each tool that calls the client (send_event, get_event_runs,
  get_run_details, manage_run with either action), when the client operation throws,
  the handler returns a text response made of the tool's prefix and the error's
  message; getRunDetails only throws Error instances, so this holds for get_run_details
  too. debug_connection calls no throwing operation. The caller of a tool sees a
  protocol-level failure exactly when the input does not fit the tool's declared shape.
\<close>

theorem client_errors_become_text:
  "(sendEvent W eventName payload st = (Inl e, st1) \<longrightarrow>
      send_event W V eventName payload st =
        (TextContent (''**Error sending event:** '' @ errorMessage e), st1))
   \<and> (getEventRuns W eventId st = (Inl e, st1) \<longrightarrow>
      get_event_runs W V eventId limit st =
        (TextContent (''Error getting event runs: '' @ errorMessage e), st1))
   \<and> (getRunDetails W runId st = (Inl e, st1) \<longrightarrow>
      (\<exists>m. e = Err m) \<and>
      get_run_details W V runId st =
        (TextContent (''Error getting run details: '' @ errorMessage e), st1))
   \<and> (cancelRun W runId st = (Inl e, st1) \<longrightarrow>
      manage_run W runId ''cancel'' st =
        (TextContent (''Error managing run: '' @ errorMessage e), st1))
   \<and> (replayRun W runId st = (Inl e, st1) \<longrightarrow>
      manage_run W runId ''replay'' st =
        (TextContent (''Error managing run: '' @ errorMessage e), st1))
   \<and> (fst (callTool W V tool raw st) = ProtocolFailure \<longleftrightarrow> inputSchema tool raw = None)"
proof (intro conjI impI)
  assume "getRunDetails W runId st = (Inl e, st1)"
  then show "\<exists>m. e = Err m"
    and "get_run_details W V runId st =
        (TextContent (''Error getting run details: '' @ errorMessage e), st1)"
    using getRunDetails_throws_Error [of W runId st e st1]
    by (auto simp: get_run_details_def)
next
  show "fst (callTool W V tool raw st) = ProtocolFailure \<longleftrightarrow> inputSchema tool raw = None"
    by (rule callTool_failure)
qed (simp_all add: send_event_def get_event_runs_def manage_run_def)

theorem client_errors_become_text_witness:
  "cancelRun (scripted []) ''run-123'' (newClient localConfig)
     = (Inl (Err ''Run cancellation not available in development mode. Please use Inngest Cloud for run management features.''), newClient localConfig)
   \<and> callTool (scripted []) fixedViews ManageRunTool
        (JObj [(''runId'', JStr ''run-123''), (''action'', JStr ''cancel'')]) (newClient localConfig)
     = (Returned (TextContent ''Error managing run: Run cancellation not available in development mode. Please use Inngest Cloud for run management features.''), newClient localConfig)
   \<and> inputSchema ManageRunTool (JObj [(''runId'', JStr ''run-123''), (''action'', JStr ''pause'')])
     = None
   \<and> fst (callTool (scripted []) fixedViews ManageRunTool
        (JObj [(''runId'', JStr ''run-123''), (''action'', JStr ''pause'')]) (newClient localConfig))
     = ProtocolFailure"
proof -
  have c: "cancelRun (scripted []) ''run-123'' (newClient localConfig)
     = (Inl (Err ''Run cancellation not available in development mode. Please use Inngest Cloud for run management features.''), newClient localConfig)"
    by (simp add: cancelRun_def newClient_def localConfig_isLocal)
  have i: "inputSchema ManageRunTool
             (JObj [(''runId'', JStr ''run-123''), (''action'', JStr ''pause'')]) = None"
    by simp
  note t = client_errors_become_text [of "scripted []" _ _ "newClient localConfig"
      "Err ''Run cancellation not available in development mode. Please use Inngest Cloud for run management features.''"
      "newClient localConfig" fixedViews _ _ "''run-123''" ManageRunTool
      "JObj [(''runId'', JStr ''run-123''), (''action'', JStr ''pause'')]"]
  show ?thesis
    using c i t by simp
qed

end
